theory Spec2Isabelle
  imports Main
begin

section \<open>Data model\<close>

text \<open>
  The real-time layer of the chat server, from the file that holds the storage class
  and \<open>registerRoutes\<close>: the methods of \<open>DatabaseStorage\<close> the hub calls, the \<open>clients\<close>
  map with \<open>broadcastToUsers\<close> and \<open>broadcastToConversation\<close>, the handlers of the
  WebSocket server (\<open>message\<close>, \<open>close\<close>) and the route that marks a message read.

  Identifiers are strings (\<open>varchar\<close> columns, \<open>string\<close> in the TypeScript types), time
  stamps are milliseconds since the epoch (\<open>Date.getTime()\<close>), a WebSocket object is
  named by a number.
\<close>

type_synonym ident = string
type_synonym sock = nat

datatype user_status = online | away | busy | offline
datatype call_type = voice | video
datatype call_status = initiated | ringing | active | ended | missed | declined

text \<open>
  Rows of the tables of \<open>shared/schema.ts\<close>. A nullable column is an option. The
  tables of users, messages and calls are maps from the primary key \<open>id\<close> to the rest of
  the row, and the functions that return such a row return the key with it where the
  caller reads \<open>.id\<close>. Columns that the modelled functions neither read nor write
  (profile fields of a user, the name of a conversation, the content of a message,
  \<open>metadata\<close> of a call, the generated row id of a participant) are left out.
\<close>

record user =
  username :: string
  user_status :: "user_status option"
  lastSeenAt :: "int option"
  updatedAt :: "int option"

record conversation =
  conv_id :: ident
  lastActivityAt :: "int option"

record participant =
  part_conversationId :: ident
  part_userId :: ident
  isTyping :: "bool option"
  typingUpdatedAt :: "int option"

record message =
  msg_conversationId :: ident
  senderId :: ident

record receipt =
  rc_id :: ident
  rc_messageId :: ident
  rc_userId :: ident
  deliveredAt :: "int option"
  readAt :: "int option"

record call =
  conversationId :: "ident option"
  initiatorId :: ident
  ctype :: call_type
  status :: call_status
  startedAt :: "int option"
  endedAt :: "int option"
  duration :: "int option"
  createdAt :: "int option"

record call_participant =
  cp_callId :: ident
  cp_userId :: ident
  joinedAt :: "int option"
  leftAt :: "int option"
  isMuted :: "bool option"
  isVideoOff :: "bool option"
  isScreenSharing :: "bool option"

record store =
  users :: "ident \<rightharpoonup> user"
  conversations :: "conversation list"
  conversationParticipants :: "participant list"
  messages :: "ident \<rightharpoonup> message"
  messageReceipts :: "receipt list"
  calls :: "ident \<rightharpoonup> call"
  callParticipants :: "call_participant list"

text \<open>
  What a handler gets from outside the program when it runs: the clock (\<open>new Date()\<close>,
  read once per event), the identifier the database generates for an inserted row
  (\<open>gen_random_uuid()\<close>), and whether the database rejects one of the storage calls of
  this run: \<open>fault = Some k\<close> makes the call number \<open>k\<close> (from 0) reject, as a lost
  connection would. Of the constraints of the schema, the methods below check the
  primary key of an inserted row, the foreign keys of \<open>calls\<close> and \<open>call_participants\<close>
  and the range of the integer column \<open>duration\<close>; a call that fails for another reason
  is a call the environment rejects.
\<close>

record env =
  now :: int
  uuid :: ident
  fault :: "nat option"

datatype err = SyntaxError | TypeError | StoreRejected | NoValuesToSet

section \<open>Wire format\<close>

text \<open>
  A JSON value, for the parts of a payload the hub relays without reading them
  (\<open>candidate\<close>, \<open>offer\<close>, \<open>answer\<close>); \<open>truthy\<close> is JavaScript's conversion to a boolean.
\<close>

datatype json = JNull | JBool bool | JNum int | JStr string | JArr "json list" | JObj "(string \<times> json) list"

fun truthy :: "json \<Rightarrow> bool" where
  "truthy JNull = False"
| "truthy (JBool b) = b"
| "truthy (JNum n) = (n \<noteq> 0)"
| "truthy (JStr s) = (s \<noteq> [])"
| "truthy (JArr _) = True"
| "truthy (JObj _) = True"

text \<open>
  The payload of an inbound message, with the fields the handlers read; \<open>None\<close> is a
  field that is absent (\<open>undefined\<close>). Identifier fields hold strings, as the declared
  types of the functions they are passed to say.
\<close>

record payload =
  p_userId :: "ident option"
  p_conversationId :: "ident option"
  p_callId :: "ident option"
  p_targetUserId :: "ident option"
  p_type :: "call_type option"
  p_isTyping :: "bool option"
  p_isMuted :: "bool option"
  p_isVideoOff :: "bool option"
  p_isScreenSharing :: "bool option"
  p_candidate :: "json option"
  p_offer :: "json option"
  p_answer :: "json option"

text \<open>
  The data of a \<open>message\<close> event after \<open>JSON.parse\<close> and \<open>const { type, payload } = message\<close>:
  the text does not parse; it parses to \<open>null\<close>, which cannot be destructured; or it gives
  a \<open>type\<close> and a \<open>payload\<close>, each possibly \<open>undefined\<close>.
\<close>

datatype frame = Malformed | NotDestructurable | Envelope "string option" "payload option"

text \<open>The payloads of the events the server sends.\<close>

datatype out_payload =
    UserStatusChanged ident user_status
  | TypingStatus ident ident "bool option"
  | UserTyping ident bool
  | IncomingCall "ident \<times> call" "user option"
  | CallAccepted ident ident
  | CallDeclined ident ident
  | CallEnded ident ident int
  | ParticipantMediaChanged "ident option" ident payload
  | IceCandidate ident json
  | WebrtcOffer ident json
  | WebrtcAnswer ident json
  | MessageRead ident ident ident "user option" int

type_synonym wire = "string \<times> out_payload"

section \<open>State of the server\<close>

datatype readyState = CONNECTING | OPEN | CLOSING | CLOSED

record socket =
  readyState :: readyState
  outbox :: "wire list"

text \<open>
  \<open>clients\<close> is the module-level map; \<open>sockets\<close> gives each WebSocket its state and the
  messages \<open>send\<close> has put on it; \<open>userIdOf\<close> is the variable \<open>userId\<close> of each
  connection's closure; \<open>errlog\<close> is what \<open>console.error\<close> has printed. Two fields
  observe rather than store: \<open>faultAt\<close> counts down to the storage call that rejects,
  and \<open>trace\<close> lists the calls of \<open>broadcastToUsers\<close> made by handlers, with their
  recipient lists.
\<close>

record world =
  clients :: "ident \<rightharpoonup> sock"
  sockets :: "sock \<Rightarrow> socket"
  userIdOf :: "sock \<Rightarrow> ident option"
  store :: store
  errlog :: "err list"
  faultAt :: "nat option"
  trace :: "(ident list \<times> string \<times> out_payload) list"

section \<open>Effects\<close>

text \<open>
  A handler is a function from the world to a result and a new world. An exception is
  the result \<open>Inl e\<close>; the world it leaves is the one reached when it was thrown.
\<close>

type_synonym 'a M = "world \<Rightarrow> (err + 'a) \<times> world"

definition returnM :: "'a \<Rightarrow> 'a M" where
  "returnM a w = (Inr a, w)"

definition throwM :: "err \<Rightarrow> 'a M" where
  "throwM e w = (Inl e, w)"

definition bindM :: "'a M \<Rightarrow> ('a \<Rightarrow> 'b M) \<Rightarrow> 'b M" where
  "bindM m f w = (case m w of (Inl e, w') \<Rightarrow> (Inl e, w') | (Inr a, w') \<Rightarrow> f a w')"

definition thenM :: "unit M \<Rightarrow> 'b M \<Rightarrow> 'b M" where
  "thenM m n = bindM m (\<lambda>_. n)"

definition modifyM :: "(world \<Rightarrow> world) \<Rightarrow> unit M" where
  "modifyM f w = (Inr (), f w)"

definition try_catch :: "'a M \<Rightarrow> (err \<Rightarrow> 'a M) \<Rightarrow> 'a M" where
  "try_catch body handler w = (case body w of (Inl e, w') \<Rightarrow> handler e w' | (Inr a, w') \<Rightarrow> (Inr a, w'))"

definition console_error :: "err \<Rightarrow> unit M" where
  "console_error e = modifyM (\<lambda>w. w\<lparr>errlog := errlog w @ [e]\<rparr>)"

text \<open>
  \<open>await storage.f(...)\<close>: the call rejects if the environment says so, and otherwise
  does what \<open>f\<close> does to the store.
\<close>

definition storage :: "(store \<Rightarrow> err + 'a \<times> store) \<Rightarrow> 'a M" where
  "storage f w =
     (case faultAt w of
        Some 0 \<Rightarrow> (Inl StoreRejected, w\<lparr>faultAt := None\<rparr>)
      | Some (Suc k) \<Rightarrow>
          (case f (store w) of
             Inl e \<Rightarrow> (Inl e, w\<lparr>faultAt := Some k\<rparr>)
           | Inr (a, st) \<Rightarrow> (Inr a, w\<lparr>store := st, faultAt := Some k\<rparr>))
      | None \<Rightarrow>
          (case f (store w) of
             Inl e \<Rightarrow> (Inl e, w)
           | Inr (a, st) \<Rightarrow> (Inr a, w\<lparr>store := st\<rparr>)))"

definition query :: "(store \<Rightarrow> 'a) \<Rightarrow> store \<Rightarrow> err + 'a \<times> store" where
  "query f st = Inr (f st, st)"

definition command :: "(store \<Rightarrow> store) \<Rightarrow> store \<Rightarrow> err + unit \<times> store" where
  "command f st = Inr ((), f st)"

section \<open>Storage\<close>

text \<open>
  The methods of \<open>DatabaseStorage\<close> the handlers call, as functions on the tables. A
  method that only selects is a \<open>query\<close>. An insert whose generated key is already in
  the table is rejected by the primary key.
\<close>

definition getUser :: "ident \<Rightarrow> store \<Rightarrow> err + user option \<times> store" where
  "getUser uid = query (\<lambda>st. users st uid)"

definition updateUserStatus :: "ident \<Rightarrow> user_status \<Rightarrow> int \<Rightarrow> store \<Rightarrow> err + unit \<times> store" where
  "updateUserStatus uid s t =
     command (\<lambda>st. case users st uid of
        None \<Rightarrow> st
      | Some u \<Rightarrow> st\<lparr>users := (users st)(uid \<mapsto> u\<lparr>user_status := Some s, lastSeenAt := Some t, updatedAt := Some t\<rparr>)\<rparr>)"

text \<open>
  \<open>getParticipants\<close> selects the rows of the conversation and keeps those whose user
  exists (\<open>if (user) result.push({ ...p, user })\<close>).
\<close>

definition participants_of :: "ident \<Rightarrow> store \<Rightarrow> (participant \<times> user) list" where
  "participants_of cid st =
     List.map_filter (\<lambda>p. map_option (Pair p) (users st (part_userId p)))
       (filter (\<lambda>p. part_conversationId p = cid) (conversationParticipants st))"

definition getParticipants :: "ident \<Rightarrow> store \<Rightarrow> err + (participant \<times> user) list \<times> store" where
  "getParticipants cid = query (participants_of cid)"

text \<open>The identities of those rows, \<open>participants.map((p) => p.userId)\<close>.\<close>

definition participant_ids :: "ident \<Rightarrow> store \<Rightarrow> ident list" where
  "participant_ids cid st = map (\<lambda>(p, usr). part_userId p) (participants_of cid st)"

definition getConversation :: "ident \<Rightarrow> store \<Rightarrow> conversation option" where
  "getConversation cid st = find (\<lambda>c. conv_id c = cid) (conversations st)"

text \<open>
  \<open>getConversationWithDetails\<close> also reads the last message and the unread count; the
  hub uses neither, so the details kept here are the conversation and its participants.
\<close>

type_synonym details = "conversation \<times> (participant \<times> user) list"

definition getConversationWithDetails :: "ident \<Rightarrow> store \<Rightarrow> details option" where
  "getConversationWithDetails cid st =
     (case getConversation cid st of
        None \<Rightarrow> None
      | Some c \<Rightarrow> Some (c, participants_of cid st))"

text \<open>
  \<open>orderBy(desc(conversations.lastActivityAt))\<close>: later activity first, and a null
  before every value, as PostgreSQL orders descending. Rows with equal keys keep the
  order of the table (the database promises none).
\<close>

definition sorts_before :: "int option \<Rightarrow> int option \<Rightarrow> bool" where
  "sorts_before a b =
     (case a of None \<Rightarrow> True
      | Some x \<Rightarrow> (case b of None \<Rightarrow> False | Some y \<Rightarrow> y \<le> x))"

fun insert_desc :: "conversation \<Rightarrow> conversation list \<Rightarrow> conversation list" where
  "insert_desc c [] = [c]"
| "insert_desc c (d # ds) =
     (if sorts_before (lastActivityAt c) (lastActivityAt d) then c # d # ds
      else d # insert_desc c ds)"

definition order_desc :: "conversation list \<Rightarrow> conversation list" where
  "order_desc cs = foldr insert_desc cs []"

definition user_conversations :: "ident \<Rightarrow> store \<Rightarrow> details list" where
  "user_conversations uid st =
     (let conversationIds = map part_conversationId
            (filter (\<lambda>p. part_userId p = uid) (conversationParticipants st))
      in if conversationIds = [] then []
         else List.map_filter (\<lambda>conv. getConversationWithDetails (conv_id conv) st)
                (order_desc (filter (\<lambda>c. conv_id c \<in> set conversationIds) (conversations st))))"

definition getUserConversations :: "ident \<Rightarrow> store \<Rightarrow> err + details list \<times> store" where
  "getUserConversations uid = query (user_conversations uid)"

text \<open>
  An update sets the columns whose value is not \<open>undefined\<close>; \<open>None\<close> in a patch is such
  an absent value. The update builder throws when no value at all is given.
\<close>

definition updateTypingStatus :: "ident \<Rightarrow> ident \<Rightarrow> bool option \<Rightarrow> int \<Rightarrow> store \<Rightarrow> err + unit \<times> store" where
  "updateTypingStatus cid uid typing t =
     command (\<lambda>st. st\<lparr>conversationParticipants :=
        map (\<lambda>p. if part_conversationId p = cid \<and> part_userId p = uid
                  then p\<lparr>isTyping := (case typing of None \<Rightarrow> isTyping p | Some b \<Rightarrow> Some b),
                         typingUpdatedAt := Some t\<rparr>
                  else p)
            (conversationParticipants st)\<rparr>)"

definition getMessage :: "ident \<Rightarrow> store \<Rightarrow> err + message option \<times> store" where
  "getMessage mid = query (\<lambda>st. messages st mid)"

definition isUserInConversation :: "ident \<Rightarrow> ident \<Rightarrow> store \<Rightarrow> err + bool \<times> store" where
  "isUserInConversation cid uid =
     query (\<lambda>st. filter (\<lambda>p. part_conversationId p = cid \<and> part_userId p = uid)
                    (conversationParticipants st) \<noteq> [])"

definition markMessageRead :: "ident \<Rightarrow> ident \<Rightarrow> ident \<Rightarrow> int \<Rightarrow> store \<Rightarrow> err + unit \<times> store" where
  "markMessageRead mid uid new_id t st =
     (case filter (\<lambda>r. rc_messageId r = mid \<and> rc_userId r = uid) (messageReceipts st) of
        r # _ \<Rightarrow>
          (if readAt r = None
           then Inr ((), st\<lparr>messageReceipts :=
                  map (\<lambda>x. if rc_id x = rc_id r then x\<lparr>readAt := Some t\<rparr> else x) (messageReceipts st)\<rparr>)
           else Inr ((), st))
      | [] \<Rightarrow>
          (if new_id \<in> rc_id ` set (messageReceipts st) then Inl StoreRejected
           else Inr ((), st\<lparr>messageReceipts := messageReceipts st @
                  [\<lparr>rc_id = new_id, rc_messageId = mid, rc_userId = uid,
                    deliveredAt = None, readAt = Some t\<rparr>]\<rparr>)))"

subsection \<open>Calls\<close>

record insert_call =
  ic_conversationId :: "ident option"
  ic_initiatorId :: ident
  ic_type :: "call_type option"
  ic_status :: "call_status option"

record call_patch =
  set_status :: "call_status option"
  set_startedAt :: "int option"
  set_endedAt :: "int option"
  set_duration :: "int option"

record cp_patch =
  set_isMuted :: "bool option"
  set_isVideoOff :: "bool option"
  set_isScreenSharing :: "bool option"

definition getCall :: "ident \<Rightarrow> store \<Rightarrow> err + (ident \<times> call) option \<times> store" where
  "getCall cid = query (\<lambda>st. map_option (Pair cid) (calls st cid))"

definition new_call :: "insert_call \<Rightarrow> int \<Rightarrow> call" where
  "new_call d t =
     \<lparr>conversationId = ic_conversationId d, initiatorId = ic_initiatorId d,
      ctype = (case ic_type d of None \<Rightarrow> voice | Some ty \<Rightarrow> ty),
      status = (case ic_status d of None \<Rightarrow> initiated | Some s \<Rightarrow> s),
      startedAt = None, endedAt = None, duration = None, createdAt = Some t\<rparr>"

text \<open>
  \<open>calls.conversation_id\<close> references \<open>conversations.id\<close> when it is not null, and
  \<open>calls.initiator_id\<close> references \<open>users.id\<close>: an insert that names a conversation or
  a user that does not exist is rejected.
\<close>

definition createCall :: "insert_call \<Rightarrow> ident \<Rightarrow> int \<Rightarrow> store \<Rightarrow> err + (ident \<times> call) \<times> store" where
  "createCall d new_id t st =
     (if calls st new_id \<noteq> None then Inl StoreRejected
      else if (case ic_conversationId d of None \<Rightarrow> False | Some cid \<Rightarrow> getConversation cid st = None)
      then Inl StoreRejected
      else if users st (ic_initiatorId d) = None then Inl StoreRejected
      else Inr ((new_id, new_call d t), st\<lparr>calls := (calls st)(new_id \<mapsto> new_call d t)\<rparr>))"

definition apply_call_patch :: "call_patch \<Rightarrow> call \<Rightarrow> call" where
  "apply_call_patch d c =
     c\<lparr>status := (case set_status d of None \<Rightarrow> status c | Some s \<Rightarrow> s),
       startedAt := (case set_startedAt d of None \<Rightarrow> startedAt c | Some t \<Rightarrow> Some t),
       endedAt := (case set_endedAt d of None \<Rightarrow> endedAt c | Some t \<Rightarrow> Some t),
       duration := (case set_duration d of None \<Rightarrow> duration c | Some n \<Rightarrow> Some n)\<rparr>"

text \<open>
  \<open>calls.duration\<close> is an \<open>integer\<close> column, of 32 bits: an update with a duration outside
  that range is rejected.
\<close>

definition int4 :: "int \<Rightarrow> bool" where
  "int4 n \<longleftrightarrow> - 2147483648 \<le> n \<and> n \<le> 2147483647"

definition updateCall :: "ident \<Rightarrow> call_patch \<Rightarrow> store \<Rightarrow> err + call option \<times> store" where
  "updateCall cid d st =
     (if set_status d = None \<and> set_startedAt d = None \<and> set_endedAt d = None \<and> set_duration d = None
      then Inl NoValuesToSet
      else if (case set_duration d of None \<Rightarrow> False | Some n \<Rightarrow> \<not> int4 n) then Inl StoreRejected
      else (case calls st cid of
              None \<Rightarrow> Inr (None, st)
            | Some c \<Rightarrow> Inr (Some (apply_call_patch d c),
                            st\<lparr>calls := (calls st)(cid \<mapsto> apply_call_patch d c)\<rparr>)))"

definition new_call_participant :: "ident \<Rightarrow> ident \<Rightarrow> int \<Rightarrow> call_participant" where
  "new_call_participant cid uid t =
     \<lparr>cp_callId = cid, cp_userId = uid, joinedAt = Some t, leftAt = None,
      isMuted = Some False, isVideoOff = Some False, isScreenSharing = Some False\<rparr>"

text \<open>
  \<open>call_participants.call_id\<close> references \<open>calls.id\<close> and \<open>call_participants.user_id\<close>
  references \<open>users.id\<close>.
\<close>

definition addCallParticipant :: "ident \<Rightarrow> ident \<Rightarrow> int \<Rightarrow> store \<Rightarrow> err + call_participant \<times> store" where
  "addCallParticipant cid uid t st =
     (if calls st cid = None \<or> users st uid = None then Inl StoreRejected
      else Inr (new_call_participant cid uid t,
                st\<lparr>callParticipants := callParticipants st @ [new_call_participant cid uid t]\<rparr>))"

definition apply_cp_patch :: "cp_patch \<Rightarrow> call_participant \<Rightarrow> call_participant" where
  "apply_cp_patch d r =
     r\<lparr>isMuted := (case set_isMuted d of None \<Rightarrow> isMuted r | Some b \<Rightarrow> Some b),
       isVideoOff := (case set_isVideoOff d of None \<Rightarrow> isVideoOff r | Some b \<Rightarrow> Some b),
       isScreenSharing := (case set_isScreenSharing d of None \<Rightarrow> isScreenSharing r | Some b \<Rightarrow> Some b)\<rparr>"

definition updateCallParticipant :: "ident \<Rightarrow> ident \<Rightarrow> cp_patch \<Rightarrow> store \<Rightarrow> err + unit \<times> store" where
  "updateCallParticipant cid uid d st =
     (if set_isMuted d = None \<and> set_isVideoOff d = None \<and> set_isScreenSharing d = None
      then Inl NoValuesToSet
      else Inr ((), st\<lparr>callParticipants :=
             map (\<lambda>r. if cp_callId r = cid \<and> cp_userId r = uid then apply_cp_patch d r else r)
                 (callParticipants st)\<rparr>))"

section \<open>Broadcast\<close>

text \<open>
  \<open>broadcastToUsers\<close>: for each identity in turn, if \<open>clients\<close> has a socket for it and
  the socket is open, the message is sent on it.
\<close>

definition send_to :: "wire \<Rightarrow> ident \<Rightarrow> world \<Rightarrow> world" where
  "send_to m userId w =
     (case clients w userId of
        None \<Rightarrow> w
      | Some client \<Rightarrow>
          if readyState (sockets w client) = OPEN
          then w\<lparr>sockets := (sockets w)(client := (sockets w client)\<lparr>outbox := outbox (sockets w client) @ [m]\<rparr>)\<rparr>
          else w)"

definition broadcastToUsers :: "ident list \<Rightarrow> string \<Rightarrow> out_payload \<Rightarrow> world \<Rightarrow> world" where
  "broadcastToUsers userIds ty pl w = fold (send_to (ty, pl)) userIds w"

text \<open>A call of \<open>broadcastToUsers\<close> by a handler, noted in the trace.\<close>

definition broadcast :: "ident list \<Rightarrow> string \<Rightarrow> out_payload \<Rightarrow> unit M" where
  "broadcast userIds ty pl =
     modifyM (\<lambda>w. (broadcastToUsers userIds ty pl w)\<lparr>trace := trace w @ [(userIds, ty, pl)]\<rparr>)"

definition broadcastToConversation :: "ident \<Rightarrow> string \<Rightarrow> out_payload \<Rightarrow> ident option \<Rightarrow> unit M" where
  "broadcastToConversation cid ty pl excludeUserId =
     bindM (storage (getParticipants cid)) (\<lambda>participants.
       broadcast (filter (\<lambda>i. Some i \<noteq> excludeUserId) (map (\<lambda>(p, u). part_userId p) participants)) ty pl)"

section \<open>The WebSocket handlers\<close>

text \<open>
  Reading a property of \<open>payload\<close> throws a \<open>TypeError\<close> when the message had none.
\<close>

definition getM :: "(world \<Rightarrow> 'a) \<Rightarrow> 'a M" where
  "getM f w = (Inr (f w), w)"

definition the_payload :: "payload option \<Rightarrow> payload M" where
  "the_payload pl = (case pl of None \<Rightarrow> throwM TypeError | Some p \<Rightarrow> returnM p)"

text \<open>
  The guards \<open>if (userId && payload.f)\<close>: a string is truthy when it is there and not
  empty, and \<open>&&\<close> reads \<open>payload\<close> only when \<open>userId\<close> is truthy.
\<close>

definition if_str :: "ident option \<Rightarrow> (ident \<Rightarrow> unit M) \<Rightarrow> unit M" where
  "if_str x k = (case x of None \<Rightarrow> returnM () | Some v \<Rightarrow> if v \<noteq> [] then k v else returnM ())"

definition if_json :: "json option \<Rightarrow> (json \<Rightarrow> unit M) \<Rightarrow> unit M" where
  "if_json x k = (case x of None \<Rightarrow> returnM () | Some v \<Rightarrow> if truthy v then k v else returnM ())"

definition if_userId :: "sock \<Rightarrow> (ident \<Rightarrow> unit M) \<Rightarrow> unit M" where
  "if_userId ws k = bindM (getM (\<lambda>w. userIdOf w ws)) (\<lambda>userId. if_str userId k)"

text \<open>
  \<open>contactIds\<close>: a \<open>Set\<close> filled in the order of the conversations and their
  participants, then \<open>Array.from\<close>.
\<close>

definition set_add :: "'a \<Rightarrow> 'a list \<Rightarrow> 'a list" where
  "set_add x xs = (if x \<in> set xs then xs else xs @ [x])"

definition contactIds :: "ident \<Rightarrow> details list \<Rightarrow> ident list" where
  "contactIds userId convs =
     fold (\<lambda>(conv, ps) acc.
             fold (\<lambda>(p, u) acc'. if part_userId p \<noteq> userId then set_add (part_userId p) acc' else acc') ps acc)
          convs []"

definition user_online :: "sock \<Rightarrow> env \<Rightarrow> payload option \<Rightarrow> unit M" where
  "user_online ws ev pl =
     bindM (the_payload pl) (\<lambda>p.
     thenM (modifyM (\<lambda>w. w\<lparr>userIdOf := (userIdOf w)(ws := p_userId p)\<rparr>))
     (if_str (p_userId p) (\<lambda>userId.
        thenM (modifyM (\<lambda>w. w\<lparr>clients := (clients w)(userId \<mapsto> ws)\<rparr>))
       (thenM (storage (updateUserStatus userId online (now ev)))
       (bindM (storage (getUserConversations userId)) (\<lambda>convs.
          broadcast (contactIds userId convs) ''user-status-changed'' (UserStatusChanged userId online)))))))"

definition typing_status :: "sock \<Rightarrow> env \<Rightarrow> payload option \<Rightarrow> unit M" where
  "typing_status ws ev pl =
     if_userId ws (\<lambda>userId.
     bindM (the_payload pl) (\<lambda>p.
     if_str (p_conversationId p) (\<lambda>cid.
       thenM (storage (updateTypingStatus cid userId (p_isTyping p) (now ev)))
        (broadcastToConversation cid ''typing-status'' (TypingStatus cid userId (p_isTyping p)) (Some userId)))))"

definition start_call :: "sock \<Rightarrow> env \<Rightarrow> payload option \<Rightarrow> unit M" where
  "start_call ws ev pl =
     if_userId ws (\<lambda>userId.
     bindM (the_payload pl) (\<lambda>p.
     if_str (p_conversationId p) (\<lambda>cid.
       bindM (storage (createCall \<lparr>ic_conversationId = Some cid, ic_initiatorId = userId,
                                   ic_type = p_type p, ic_status = Some initiated\<rparr> (uuid ev) (now ev))) (\<lambda>c.
       bindM (storage (addCallParticipant (fst c) userId (now ev))) (\<lambda>_.
       bindM (storage (getUser userId)) (\<lambda>initiator.
         broadcastToConversation cid ''incoming-call'' (IncomingCall c initiator) (Some userId)))))))"

definition accept_call :: "sock \<Rightarrow> env \<Rightarrow> payload option \<Rightarrow> unit M" where
  "accept_call ws ev pl =
     if_userId ws (\<lambda>userId.
     bindM (the_payload pl) (\<lambda>p.
     if_str (p_callId p) (\<lambda>callId.
       bindM (storage (getCall callId)) (\<lambda>found.
         case found of
           None \<Rightarrow> returnM ()
         | Some (call_id, c) \<Rightarrow>
             bindM (storage (addCallParticipant call_id userId (now ev))) (\<lambda>_.
             bindM (storage (updateCall call_id
                      \<lparr>set_status = Some active, set_startedAt = Some (now ev),
                       set_endedAt = None, set_duration = None\<rparr>)) (\<lambda>_.
               if_str (conversationId c) (\<lambda>cid.
                 broadcastToConversation cid ''call-accepted'' (CallAccepted call_id userId) None)))))))"

definition decline_call :: "sock \<Rightarrow> env \<Rightarrow> payload option \<Rightarrow> unit M" where
  "decline_call ws ev pl =
     if_userId ws (\<lambda>userId.
     bindM (the_payload pl) (\<lambda>p.
     if_str (p_callId p) (\<lambda>callId.
       bindM (storage (getCall callId)) (\<lambda>found.
         case found of
           None \<Rightarrow> returnM ()
         | Some (call_id, c) \<Rightarrow>
             bindM (storage (updateCall call_id
                      \<lparr>set_status = Some declined, set_startedAt = None,
                       set_endedAt = None, set_duration = None\<rparr>)) (\<lambda>_.
               if_str (conversationId c) (\<lambda>cid.
                 broadcastToConversation cid ''call-declined'' (CallDeclined call_id userId) None))))))"

text \<open>
  \<open>Math.floor((endedAt.getTime() - new Date(call.startedAt).getTime()) / 1000)\<close>: both
  times are whole milliseconds, and \<open>div\<close> on integers rounds down as \<open>Math.floor\<close> does.
\<close>

definition call_duration :: "call \<Rightarrow> int \<Rightarrow> int" where
  "call_duration c endedAt' =
     (case startedAt c of Some t \<Rightarrow> (endedAt' - t) div 1000 | None \<Rightarrow> 0)"

definition end_call :: "sock \<Rightarrow> env \<Rightarrow> payload option \<Rightarrow> unit M" where
  "end_call ws ev pl =
     if_userId ws (\<lambda>userId.
     bindM (the_payload pl) (\<lambda>p.
     if_str (p_callId p) (\<lambda>callId.
       bindM (storage (getCall callId)) (\<lambda>found.
         case found of
           None \<Rightarrow> returnM ()
         | Some (call_id, c) \<Rightarrow>
             bindM (storage (updateCall call_id
                      \<lparr>set_status = Some ended, set_startedAt = None,
                       set_endedAt = Some (now ev), set_duration = Some (call_duration c (now ev))\<rparr>)) (\<lambda>_.
               if_str (conversationId c) (\<lambda>cid.
                 broadcastToConversation cid ''call-ended''
                   (CallEnded call_id userId (call_duration c (now ev))) None))))))"

text \<open>
  The three toggles share one body. The payload of the broadcast is
  \<open>{ callId: payload.callId, userId, ...payload }\<close>, so the inbound payload goes with it.
\<close>

definition toggle_media :: "string \<Rightarrow> sock \<Rightarrow> env \<Rightarrow> payload option \<Rightarrow> unit M" where
  "toggle_media ty ws ev pl =
     if_userId ws (\<lambda>userId.
     bindM (the_payload pl) (\<lambda>p.
     if_str (p_callId p) (\<lambda>callId.
       thenM (storage (updateCallParticipant callId userId
                \<lparr>set_isMuted = (if ty = ''toggle-mute'' then p_isMuted p else None),
                 set_isVideoOff = (if ty = ''toggle-video'' then p_isVideoOff p else None),
                 set_isScreenSharing = (if ty = ''toggle-screen-share'' then p_isScreenSharing p else None)\<rparr>))
       (bindM (storage (getCall callId)) (\<lambda>found.
          case found of
            None \<Rightarrow> returnM ()
          | Some (call_id, c) \<Rightarrow>
              if_str (conversationId c) (\<lambda>cid.
                broadcastToConversation cid ''participant-media-changed''
                  (ParticipantMediaChanged (p_callId p) userId p) (Some userId)))))))"

definition user_typing :: "sock \<Rightarrow> env \<Rightarrow> payload option \<Rightarrow> unit M" where
  "user_typing ws ev pl =
     if_userId ws (\<lambda>userId.
     bindM (the_payload pl) (\<lambda>p.
     if_str (p_conversationId p) (\<lambda>cid.
       thenM (storage (updateTypingStatus cid userId (Some (p_isTyping p = Some True)) (now ev)))
        (broadcastToConversation cid ''user-typing'' (UserTyping userId (p_isTyping p = Some True)) (Some userId)))))"

definition ice_candidate :: "sock \<Rightarrow> env \<Rightarrow> payload option \<Rightarrow> unit M" where
  "ice_candidate ws ev pl =
     if_userId ws (\<lambda>userId.
     bindM (the_payload pl) (\<lambda>p.
     if_str (p_targetUserId p) (\<lambda>target.
     if_json (p_candidate p) (\<lambda>candidate.
       broadcast [target] ''ice-candidate'' (IceCandidate userId candidate)))))"

definition webrtc_offer :: "sock \<Rightarrow> env \<Rightarrow> payload option \<Rightarrow> unit M" where
  "webrtc_offer ws ev pl =
     if_userId ws (\<lambda>userId.
     bindM (the_payload pl) (\<lambda>p.
     if_str (p_targetUserId p) (\<lambda>target.
     if_json (p_offer p) (\<lambda>offer.
       broadcast [target] ''webrtc-offer'' (WebrtcOffer userId offer)))))"

definition webrtc_answer :: "sock \<Rightarrow> env \<Rightarrow> payload option \<Rightarrow> unit M" where
  "webrtc_answer ws ev pl =
     if_userId ws (\<lambda>userId.
     bindM (the_payload pl) (\<lambda>p.
     if_str (p_targetUserId p) (\<lambda>target.
     if_json (p_answer p) (\<lambda>answer.
       broadcast [target] ''webrtc-answer'' (WebrtcAnswer userId answer)))))"

text \<open>
  The \<open>switch (type)\<close>: the case clauses in the order of the source, each with its
  labels; the first clause with a label equal to \<open>type\<close> runs, and every clause ends in
  \<open>break\<close>. There is no \<open>default\<close>. The label \<open>typing\<close> occurs twice.
\<close>

definition switch_clauses :: "(string list \<times> (string \<Rightarrow> sock \<Rightarrow> env \<Rightarrow> payload option \<Rightarrow> unit M)) list" where
  "switch_clauses =
     [([''user-online''], \<lambda>ty. user_online),
      ([''typing''], \<lambda>ty. typing_status),
      ([''start-call''], \<lambda>ty. start_call),
      ([''accept-call''], \<lambda>ty. accept_call),
      ([''decline-call''], \<lambda>ty. decline_call),
      ([''end-call''], \<lambda>ty. end_call),
      ([''toggle-mute'', ''toggle-video'', ''toggle-screen-share''], toggle_media),
      ([''typing''], \<lambda>ty. user_typing),
      ([''ice-candidate''], \<lambda>ty. ice_candidate),
      ([''webrtc-offer''], \<lambda>ty. webrtc_offer),
      ([''webrtc-answer''], \<lambda>ty. webrtc_answer)]"

definition switch :: "string option \<Rightarrow> sock \<Rightarrow> env \<Rightarrow> payload option \<Rightarrow> unit M" where
  "switch ty ws ev pl =
     (case ty of
        None \<Rightarrow> returnM ()
      | Some t \<Rightarrow>
          (case find (\<lambda>(labels, body). t \<in> set labels) switch_clauses of
             None \<Rightarrow> returnM ()
           | Some (labels, body) \<Rightarrow> body t ws ev pl))"

definition message_body :: "sock \<Rightarrow> env \<Rightarrow> frame \<Rightarrow> unit M" where
  "message_body ws ev fr =
     (case fr of
        Malformed \<Rightarrow> throwM SyntaxError
      | NotDestructurable \<Rightarrow> throwM TypeError
      | Envelope ty pl \<Rightarrow> switch ty ws ev pl)"

definition on_message :: "sock \<Rightarrow> env \<Rightarrow> frame \<Rightarrow> unit M" where
  "on_message ws ev fr = try_catch (message_body ws ev fr) console_error"

text \<open>The \<open>close\<close> handler has no \<open>try\<close>: a rejected storage call leaves it as an exception.\<close>

definition on_close :: "sock \<Rightarrow> env \<Rightarrow> unit M" where
  "on_close ws ev =
     if_userId ws (\<lambda>userId.
       thenM (modifyM (\<lambda>w. w\<lparr>clients := (clients w)(userId := None)\<rparr>))
      (thenM (storage (updateUserStatus userId offline (now ev)))
      (bindM (storage (getUserConversations userId)) (\<lambda>convs.
         broadcast (contactIds userId convs) ''user-status-changed'' (UserStatusChanged userId offline)))))"

section \<open>The route that marks a message read\<close>

text \<open>
  \<open>POST /api/messages/:id/read\<close> for the authenticated user \<open>userId\<close>; the result is the
  status of the response.
\<close>

definition mark_read_body :: "ident \<Rightarrow> ident \<Rightarrow> env \<Rightarrow> nat M" where
  "mark_read_body userId messageId ev =
     bindM (storage (getMessage messageId)) (\<lambda>found.
       case found of
         None \<Rightarrow> returnM 404
       | Some m \<Rightarrow>
           bindM (storage (isUserInConversation (msg_conversationId m) userId)) (\<lambda>isInConv.
             if \<not> isInConv then returnM 403
             else if senderId m = userId then returnM 200
             else
               thenM (storage (markMessageRead messageId userId (uuid ev) (now ev)))
              (bindM (storage (getUser userId)) (\<lambda>reader.
               thenM (broadcastToConversation (msg_conversationId m) ''message-read''
                        (MessageRead messageId (msg_conversationId m) userId reader (now ev)) None)
                     (returnM 200)))))"

definition mark_read :: "ident \<Rightarrow> ident \<Rightarrow> env \<Rightarrow> nat M" where
  "mark_read userId messageId ev =
     try_catch (mark_read_body userId messageId ev) (\<lambda>e. thenM (console_error e) (returnM 500))"

section \<open>Events\<close>

text \<open>
  What happens to the server, one event at a time: a client connects (the socket is
  open and its \<open>userId\<close> is \<open>null\<close>), a message arrives on a socket, a socket closes, a
  read request arrives. Each event is handled to its end before the next: the
  interleaving of handlers at an \<open>await\<close> is not modelled.
\<close>

datatype event = Connection sock | Message sock frame | Close sock | MarkRead ident ident

definition on_connection :: "sock \<Rightarrow> world \<Rightarrow> world" where
  "on_connection ws w =
     w\<lparr>sockets := (sockets w)(ws := \<lparr>readyState = OPEN, outbox = []\<rparr>),
       userIdOf := (userIdOf w)(ws := None)\<rparr>"

definition closed :: "sock \<Rightarrow> world \<Rightarrow> world" where
  "closed ws w = w\<lparr>sockets := (sockets w)(ws := (sockets w ws)\<lparr>readyState := CLOSED\<rparr>)\<rparr>"

definition step :: "env \<times> event \<Rightarrow> world \<Rightarrow> world" where
  "step x w =
     (case x of (ev, e) \<Rightarrow>
        (case e of
           Connection ws \<Rightarrow> on_connection ws w
         | Message ws fr \<Rightarrow> snd (on_message ws ev fr (w\<lparr>faultAt := fault ev\<rparr>))
         | Close ws \<Rightarrow> snd (on_close ws ev (closed ws (w\<lparr>faultAt := fault ev\<rparr>)))
         | MarkRead userId messageId \<Rightarrow> snd (mark_read userId messageId ev (w\<lparr>faultAt := fault ev\<rparr>))))"

definition run :: "(env \<times> event) list \<Rightarrow> world \<Rightarrow> world" where
  "run xs w = fold step xs w"

section \<open>Observations\<close>

text \<open>
  The event names the \<open>switch\<close> has a clause for, and the names of the events the
  WebSocket handlers broadcast.
\<close>

definition handled_types :: "string list" where
  "handled_types =
     [''user-online'', ''typing'', ''start-call'', ''accept-call'', ''decline-call'', ''end-call'',
      ''toggle-mute'', ''toggle-video'', ''toggle-screen-share'',
      ''webrtc-offer'', ''webrtc-answer'', ''ice-candidate'']"

definition emitted_types :: "string list" where
  "emitted_types =
     [''user-status-changed'', ''typing-status'', ''incoming-call'', ''call-accepted'',
      ''call-declined'', ''call-ended'', ''participant-media-changed'', ''ice-candidate'',
      ''webrtc-offer'', ''webrtc-answer'']"

text \<open>
  \<open>extends Q w w'\<close>: from \<open>w\<close> to \<open>w'\<close> no socket changed its ready state, nothing was
  logged, and the trace grew by broadcasts that satisfy \<open>Q\<close>. \<open>keeps Q m\<close>: the
  computation \<open>m\<close> does that from every world.
\<close>

definition extends :: "(ident list \<times> string \<times> out_payload \<Rightarrow> bool) \<Rightarrow> world \<Rightarrow> world \<Rightarrow> bool" where
  "extends Q w w' \<longleftrightarrow>
     (\<forall>c. readyState (sockets w' c) = readyState (sockets w c)) \<and> errlog w' = errlog w \<and>
     (\<exists>new. trace w' = trace w @ new \<and> (\<forall>x \<in> set new. Q x))"

definition keeps :: "(ident list \<times> string \<times> out_payload \<Rightarrow> bool) \<Rightarrow> 'a M \<Rightarrow> bool" where
  "keeps Q m \<longleftrightarrow> (\<forall>w. extends Q w (snd (m w)))"

text \<open>
  What a broadcast of the message \<open>m\<close> to the identities \<open>ids\<close> puts on socket \<open>c\<close> in
  the world \<open>w\<close>: one copy for each recipient that \<open>clients\<close> has \<open>c\<close> for, if \<open>c\<close> is
  open, and nothing otherwise.
\<close>

definition deliveries :: "ident list \<Rightarrow> wire \<Rightarrow> world \<Rightarrow> sock \<Rightarrow> wire list" where
  "deliveries ids m w c =
     (if readyState (sockets w c) = OPEN
      then replicate (length (filter (\<lambda>i. clients w i = Some c) ids)) m
      else [])"

text \<open>
  \<open>started_by t st\<close>: no call of the store has a start time later than \<open>t\<close>.
  \<open>preserves P m\<close>: the computation \<open>m\<close> keeps the property \<open>P\<close> of the store.
\<close>

definition started_by :: "int \<Rightarrow> store \<Rightarrow> bool" where
  "started_by t st \<longleftrightarrow> (\<forall>cid c s. calls st cid = Some c \<longrightarrow> startedAt c = Some s \<longrightarrow> s \<le> t)"

definition preserves :: "(store \<Rightarrow> bool) \<Rightarrow> 'a M \<Rightarrow> bool" where
  "preserves P m \<longleftrightarrow> (\<forall>w. P (store w) \<longrightarrow> P (store (snd (m w))))"

text \<open>
  The statuses a call takes along a run: its status before the first event and after
  each event, where the call exists, without immediate repetitions.
\<close>

fun statuses :: "ident \<Rightarrow> (env \<times> event) list \<Rightarrow> world \<Rightarrow> call_status option list" where
  "statuses cid [] w = [map_option status (calls (store w) cid)]"
| "statuses cid (x # xs) w = map_option status (calls (store w) cid) # statuses cid xs (step x w)"

definition status_history :: "ident \<Rightarrow> (env \<times> event) list \<Rightarrow> world \<Rightarrow> call_status list" where
  "status_history cid xs w = remdups_adj (List.map_filter (\<lambda>s. s) (statuses cid xs w))"

text \<open>
  The order of statuses as the specification words it: the observed sequence is a
  subsequence of \<open>initiated, ringing, active, ended\<close>, or of \<open>initiated, declined\<close>, or
  of \<open>initiated, missed\<close>, where \<open>ringing\<close> may come before \<open>declined\<close> and \<open>missed\<close>
  too (both are reachable from \<open>initiated\<close> and from \<open>ringing\<close>).
\<close>

definition spec_paths :: "call_status list list" where
  "spec_paths =
     [[initiated, ringing, active, ended],
      [initiated, ringing, declined],
      [initiated, ringing, missed]]"

fun is_subseq :: "'a list \<Rightarrow> 'a list \<Rightarrow> bool" where
  "is_subseq [] ys = True"
| "is_subseq (x # xs) [] = False"
| "is_subseq (x # xs) (y # ys) = (if x = y then is_subseq xs ys else is_subseq (x # xs) ys)"

definition spec_status_order :: "call_status list \<Rightarrow> bool" where
  "spec_status_order hist = list_ex (is_subseq hist) spec_paths"

section \<open>A small server\<close>

text \<open>
  Two users, \<open>A\<close> and \<open>B\<close>, in one conversation \<open>k\<close> that holds one message of \<open>A\<close>;
  \<open>A\<close> is online on socket 1 and \<open>B\<close> on socket 2.
\<close>

definition empty_payload :: payload where
  "empty_payload =
     \<lparr>p_userId = None, p_conversationId = None, p_callId = None, p_targetUserId = None,
      p_type = None, p_isTyping = None, p_isMuted = None, p_isVideoOff = None,
      p_isScreenSharing = None, p_candidate = None, p_offer = None, p_answer = None\<rparr>"

definition alice :: user where
  "alice = \<lparr>username = ''alice'', user_status = Some online, lastSeenAt = Some 100, updatedAt = Some 100\<rparr>"

definition bob :: user where
  "bob = \<lparr>username = ''bob'', user_status = Some online, lastSeenAt = Some 200, updatedAt = Some 200\<rparr>"

definition demo_store :: store where
  "demo_store =
     \<lparr>users = [''A'' \<mapsto> alice, ''B'' \<mapsto> bob],
      conversations = [\<lparr>conv_id = ''k'', lastActivityAt = Some 50\<rparr>],
      conversationParticipants =
        [\<lparr>part_conversationId = ''k'', part_userId = ''A'', isTyping = Some False, typingUpdatedAt = None\<rparr>,
         \<lparr>part_conversationId = ''k'', part_userId = ''B'', isTyping = Some False, typingUpdatedAt = None\<rparr>],
      messages = [''m1'' \<mapsto> \<lparr>msg_conversationId = ''k'', senderId = ''A''\<rparr>],
      messageReceipts = [],
      calls = Map.empty,
      callParticipants = []\<rparr>"

definition demo_world :: world where
  "demo_world =
     \<lparr>clients = [''A'' \<mapsto> 1, ''B'' \<mapsto> 2],
      sockets = (\<lambda>c. \<lparr>readyState = (if c = 1 \<or> c = 2 then OPEN else CLOSED), outbox = []\<rparr>),
      userIdOf = (\<lambda>c. if c = 1 then Some ''A'' else if c = 2 then Some ''B'' else None),
      store = demo_store, errlog = [], faultAt = None, trace = []\<rparr>"

definition at_time :: "int \<Rightarrow> env" where
  "at_time t = \<lparr>now = t, uuid = ''c1'', fault = None\<rparr>"

definition demo_call :: "call_status \<Rightarrow> int option \<Rightarrow> call" where
  "demo_call s t =
     \<lparr>conversationId = Some ''k'', initiatorId = ''A'', ctype = voice, status = s,
      startedAt = t, endedAt = None, duration = None, createdAt = Some 1000\<rparr>"

definition world_with_call :: "call \<Rightarrow> world" where
  "world_with_call c = demo_world\<lparr>store := demo_store\<lparr>calls := [''c1'' \<mapsto> c]\<rparr>\<rparr>"


definition online_msg :: "ident \<Rightarrow> frame" where
  "online_msg uid = Envelope (Some ''user-online'') (Some (empty_payload\<lparr>p_userId := Some uid\<rparr>))"

definition call_msg :: "string \<Rightarrow> frame" where
  "call_msg ty = Envelope (Some ty) (Some (empty_payload\<lparr>p_callId := Some ''c1''\<rparr>))"

definition conv_msg :: "string \<Rightarrow> frame" where
  "conv_msg ty = Envelope (Some ty) (Some (empty_payload\<lparr>p_conversationId := Some ''k''\<rparr>))"

text \<open>\<open>A\<close> starts a call; \<open>B\<close> declines it and then accepts it.\<close>

definition decline_then_accept :: "(env \<times> event) list" where
  "decline_then_accept =
     [(at_time 5000, Message 1 (conv_msg ''start-call'')),
      (at_time 6000, Message 2 (call_msg ''decline-call'')),
      (at_time 7000, Message 2 (call_msg ''accept-call''))]"

text \<open>\<open>A\<close> starts a call and \<open>B\<close> accepts it; then \<open>A\<close> ends it.\<close>

definition call_accepted :: "(env \<times> event) list" where
  "call_accepted =
     [(at_time 5000, Message 1 (conv_msg ''start-call'')),
      (at_time 6000, Message 2 (call_msg ''accept-call''))]"

definition accept_then_end :: "(env \<times> event) list" where
  "accept_then_end = call_accepted @ [(at_time 9500, Message 1 (call_msg ''end-call''))]"

text \<open>The same, but the clock reads 5500 ms at the end, earlier than at the accept.\<close>

definition clock_back :: "(env \<times> event) list" where
  "clock_back = call_accepted @ [(at_time 5500, Message 1 (call_msg ''end-call''))]"

text \<open>A \<open>start-call\<close> for a conversation that does not exist.\<close>

definition nope_msg :: frame where
  "nope_msg = Envelope (Some ''start-call'') (Some (empty_payload\<lparr>p_conversationId := Some ''nope''\<rparr>))"

section \<open>Basic facts\<close>

named_theorems broadcastToUsers_frame \<open>what broadcastToUsers leaves alone\<close>
named_theorems keeps_intros \<open>computations that only extend the trace\<close>
named_theorems preserves_intros \<open>computations that keep a property of the store\<close>
named_theorems started_intros \<open>storage methods that keep the start times\<close>
named_theorems started_handlers \<open>handlers that keep the start times\<close>

lemmas monad_defs = returnM_def throwM_def bindM_def thenM_def modifyM_def try_catch_def
  console_error_def getM_def the_payload_def if_str_def if_json_def if_userId_def

lemmas demo_defs = empty_payload_def alice_def bob_def demo_store_def demo_world_def at_time_def
  call_msg_def conv_msg_def

lemmas eval_defs = monad_defs storage_def query_def command_def getUser_def updateUserStatus_def
  participants_of_def participant_ids_def getParticipants_def getConversation_def
  getConversationWithDetails_def sorts_before_def order_desc_def user_conversations_def
  getUserConversations_def updateTypingStatus_def getCall_def new_call_def createCall_def apply_call_patch_def
  int4_def updateCall_def
  new_call_participant_def addCallParticipant_def apply_cp_patch_def updateCallParticipant_def
  send_to_def broadcastToUsers_def broadcast_def broadcastToConversation_def set_add_def
  contactIds_def user_online_def typing_status_def start_call_def accept_call_def decline_call_def
  call_duration_def end_call_def toggle_media_def user_typing_def ice_candidate_def
  webrtc_offer_def webrtc_answer_def switch_clauses_def switch_def message_body_def on_message_def
  List.map_filter_simps

text \<open>A storage call when the environment rejects none.\<close>

lemma storage_ok:
  "faultAt w = None \<Longrightarrow>
   storage f w = (case f (store w) of Inl e \<Rightarrow> (Inl e, w) | Inr (a, st) \<Rightarrow> (Inr a, w\<lparr>store := st\<rparr>))"
  by (simp add: storage_def)

subsection \<open>What \<open>broadcastToUsers\<close> leaves alone\<close>

lemma readyState_send_to: "readyState (sockets (send_to m i w) c) = readyState (sockets w c)"
  by (simp add: send_to_def split: option.splits)

lemma readyState_broadcastToUsers [broadcastToUsers_frame]:
  "readyState (sockets (broadcastToUsers ids ty pl w) c) = readyState (sockets w c)"
  unfolding broadcastToUsers_def
  by (induction ids arbitrary: w) (simp_all add: readyState_send_to)

lemma clients_broadcastToUsers [broadcastToUsers_frame]: "clients (broadcastToUsers ids ty pl w) = clients w"
  unfolding broadcastToUsers_def
  by (induction ids arbitrary: w) (simp_all add: send_to_def split: option.splits)

lemma errlog_broadcastToUsers [broadcastToUsers_frame]: "errlog (broadcastToUsers ids ty pl w) = errlog w"
  unfolding broadcastToUsers_def
  by (induction ids arbitrary: w) (simp_all add: send_to_def split: option.splits)

lemma trace_broadcastToUsers [broadcastToUsers_frame]: "trace (broadcastToUsers ids ty pl w) = trace w"
  unfolding broadcastToUsers_def
  by (induction ids arbitrary: w) (simp_all add: send_to_def split: option.splits)

lemma store_broadcastToUsers [broadcastToUsers_frame]: "store (broadcastToUsers ids ty pl w) = store w"
  unfolding broadcastToUsers_def
  by (induction ids arbitrary: w) (simp_all add: send_to_def split: option.splits)

lemma faultAt_broadcastToUsers [broadcastToUsers_frame]: "faultAt (broadcastToUsers ids ty pl w) = faultAt w"
  unfolding broadcastToUsers_def
  by (induction ids arbitrary: w) (simp_all add: send_to_def split: option.splits)

lemma userIdOf_broadcastToUsers [broadcastToUsers_frame]: "userIdOf (broadcastToUsers ids ty pl w) = userIdOf w"
  unfolding broadcastToUsers_def
  by (induction ids arbitrary: w) (simp_all add: send_to_def split: option.splits)

lemma send_one:
  "clients w u = Some c \<Longrightarrow>
   sockets (broadcastToUsers [u] ty pl w) =
     (if readyState (sockets w c) = OPEN
      then (sockets w)(c := (sockets w c)\<lparr>outbox := outbox (sockets w c) @ [(ty, pl)]\<rparr>)
      else sockets w)"
  by (simp add: broadcastToUsers_def send_to_def)

text \<open>What \<open>broadcastToUsers\<close> sends.\<close>

lemma outbox_send_to:
  "outbox (sockets (send_to m i w) c)
     = outbox (sockets w c) @ (if clients w i = Some c \<and> readyState (sockets w c) = OPEN then [m] else [])"
  by (simp add: send_to_def split: option.splits)

lemma clients_send_to: "clients (send_to m i w) = clients w"
  by (simp add: send_to_def split: option.splits)

lemma outbox_broadcastToUsers:
  "outbox (sockets (broadcastToUsers ids ty pl w) c) = outbox (sockets w c) @ deliveries ids (ty, pl) w c"
  unfolding broadcastToUsers_def deliveries_def
proof (induction ids arbitrary: w)
  case Nil
  then show ?case by simp
next
  case (Cons i ids)
  show ?case
    by (simp add: Cons.IH readyState_send_to clients_send_to outbox_send_to)
qed

lemma deliveries_store: "deliveries ids m (w\<lparr>store := st\<rparr>) c = deliveries ids m w c"
  by (simp add: deliveries_def)

lemma deliveries_same:
  "clients w' = clients w \<Longrightarrow> (\<And>c. readyState (sockets w' c) = readyState (sockets w c)) \<Longrightarrow>
   deliveries ids m w' c = deliveries ids m w c"
  by (simp add: deliveries_def)

subsection \<open>Participants\<close>

lemma map_filter_ids:
  "map (\<lambda>(p, usr). part_userId p)
     (List.map_filter (\<lambda>p. map_option (Pair p) (us (part_userId p)))
        (filter (\<lambda>p. part_conversationId p = cid) rows))
   = map part_userId (filter (\<lambda>p. part_conversationId p = cid \<and> us (part_userId p) \<noteq> None) rows)"
  by (induction rows) (auto simp: List.map_filter_simps)

lemma participant_ids_alt:
  "participant_ids cid st =
     map part_userId (filter (\<lambda>p. part_conversationId p = cid \<and> users st (part_userId p) \<noteq> None)
                        (conversationParticipants st))"
  by (simp add: participant_ids_def participants_of_def map_filter_ids)

lemma participant_ids_all:
  assumes "\<forall>row \<in> set (conversationParticipants st).
             part_conversationId row = cid \<longrightarrow> users st (part_userId row) \<noteq> None"
  shows "participant_ids cid st
           = map part_userId (filter (\<lambda>p. part_conversationId p = cid) (conversationParticipants st))"
proof -
  have "filter (\<lambda>p. part_conversationId p = cid \<and> users st (part_userId p) \<noteq> None) (conversationParticipants st)
        = filter (\<lambda>p. part_conversationId p = cid) (conversationParticipants st)"
    using assms by (intro filter_cong) auto
  then show ?thesis by (simp only: participant_ids_alt)
qed

lemma ids_map_cong:
  assumes "\<And>p. part_userId (f p) = part_userId p" "\<And>p. Q (f p) = Q p"
  shows "map part_userId (filter Q (map f rows)) = map part_userId (filter Q rows)"
  using assms by (induction rows) auto

lemma participant_ids_updateTypingStatus:
  assumes "updateTypingStatus c u ty t st = Inr ((), st')"
  shows "participant_ids cid st' = participant_ids cid st"
proof -
  from assms have st': "st' = st\<lparr>conversationParticipants :=
        map (\<lambda>p. if part_conversationId p = c \<and> part_userId p = u
                  then p\<lparr>isTyping := (case ty of None \<Rightarrow> isTyping p | Some b \<Rightarrow> Some b),
                         typingUpdatedAt := Some t\<rparr>
                  else p)
            (conversationParticipants st)\<rparr>"
    by (simp add: updateTypingStatus_def command_def)
  show ?thesis
    unfolding participant_ids_alt st'
    by (simp del: not_None_eq, rule ids_map_cong) auto
qed

lemma participants_of_receipts:
  "participants_of cid (st\<lparr>messageReceipts := rs\<rparr>) = participants_of cid st"
  by (simp add: participants_of_def)

lemma reader_is_participant:
  assumes "\<exists>row \<in> set (conversationParticipants st). part_conversationId row = cid \<and> part_userId row = reader"
    "users st reader \<noteq> None"
  shows "reader \<in> set (participant_ids cid st)"
proof -
  from assms obtain row where r: "row \<in> set (conversationParticipants st)"
    "part_conversationId row = cid" "part_userId row = reader" by auto
  with assms(2) show ?thesis by (force simp: participant_ids_alt)
qed

subsection \<open>Handlers extend the trace\<close>

lemma extends_refl: "extends Q w w"
  by (simp add: extends_def)

lemma extends_trans: "extends Q w w1 \<Longrightarrow> extends Q w1 w2 \<Longrightarrow> extends Q w w2"
  by (auto simp: extends_def)

lemma extends_new:
  "extends Q w w' \<Longrightarrow> \<forall>x \<in> set (drop (length (trace w)) (trace w')). Q x"
  by (auto simp: extends_def)

lemma keeps_returnM [keeps_intros]: "keeps Q (returnM a)"
  by (simp add: keeps_def returnM_def extends_refl)

lemma keeps_throwM [keeps_intros]: "keeps Q (throwM e)"
  by (simp add: keeps_def throwM_def extends_refl)

lemma keeps_getM [keeps_intros]: "keeps Q (getM f)"
  by (simp add: keeps_def getM_def extends_refl)

lemma keeps_bindM [keeps_intros]: "keeps Q m \<Longrightarrow> (\<And>a. keeps Q (f a)) \<Longrightarrow> keeps Q (bindM m f)"
  unfolding keeps_def bindM_def
proof
  fix w
  assume m: "\<forall>w. extends Q w (snd (m w))" and f: "\<And>a. \<forall>w. extends Q w (snd (f a w))"
  obtain r w1 where r: "m w = (r, w1)" by (cases "m w")
  with m have 1: "extends Q w w1" by (metis snd_conv)
  show "extends Q w (snd (case m w of (Inl e, w') \<Rightarrow> (Inl e, w') | (Inr a, w') \<Rightarrow> f a w'))"
  proof (cases r)
    case (Inl e)
    with r 1 show ?thesis by simp
  next
    case (Inr a)
    with r 1 f [of a] show ?thesis by (auto intro: extends_trans)
  qed
qed

lemma keeps_thenM [keeps_intros]: "keeps Q m \<Longrightarrow> keeps Q n \<Longrightarrow> keeps Q (thenM m n)"
  by (simp add: thenM_def keeps_bindM)

lemma keeps_storage [keeps_intros]: "keeps Q (storage f)"
  by (auto simp: keeps_def storage_def extends_def split: option.splits nat.splits sum.splits)

lemma keeps_broadcast: "Q (ids, ty, pl) \<Longrightarrow> keeps Q (broadcast ids ty pl)"
  by (simp add: keeps_def broadcast_def modifyM_def extends_def broadcastToUsers_frame)

lemma keeps_broadcastToConversation:
  "(\<And>ids. Q (filter (\<lambda>i. Some i \<noteq> ex) ids, ty, pl)) \<Longrightarrow> keeps Q (broadcastToConversation cid ty pl ex)"
  unfolding broadcastToConversation_def
  by (intro keeps_bindM keeps_storage keeps_broadcast) simp

lemma keeps_set_clients [keeps_intros]: "keeps Q (modifyM (\<lambda>w. w\<lparr>clients := f w\<rparr>))"
  by (simp add: keeps_def modifyM_def extends_def)

lemma keeps_set_userIdOf [keeps_intros]: "keeps Q (modifyM (\<lambda>w. w\<lparr>userIdOf := f w\<rparr>))"
  by (simp add: keeps_def modifyM_def extends_def)

lemma keeps_if_str [keeps_intros]: "(\<And>v. keeps Q (k v)) \<Longrightarrow> keeps Q (if_str x k)"
  by (simp add: if_str_def keeps_returnM split: option.splits)

lemma keeps_if_json [keeps_intros]: "(\<And>v. keeps Q (k v)) \<Longrightarrow> keeps Q (if_json x k)"
  by (simp add: if_json_def keeps_returnM split: option.splits)

lemma keeps_the_payload [keeps_intros]: "keeps Q (the_payload pl)"
  by (simp add: the_payload_def keeps_returnM keeps_throwM split: option.splits)

lemma keeps_if_userId [keeps_intros]: "(\<And>v. keeps Q (k v)) \<Longrightarrow> keeps Q (if_userId ws k)"
  unfolding if_userId_def by (intro keeps_bindM keeps_getM keeps_if_str)

lemma extends_if_userId:
  "(\<And>v. userIdOf w ws = Some v \<Longrightarrow> keeps Q (k v)) \<Longrightarrow> extends Q w (snd (if_userId ws k w))"
  by (auto simp: monad_defs keeps_def extends_refl split: option.splits)

lemma keeps_case_option [keeps_intros]: "keeps Q a \<Longrightarrow> (\<And>x. keeps Q (b x)) \<Longrightarrow> keeps Q (case_option a b x)"
  by (cases x) simp_all

lemma keeps_case_prod [keeps_intros]: "(\<And>a b. keeps Q (f a b)) \<Longrightarrow> keeps Q (case_prod f x)"
  by (cases x) simp

text \<open>Each clause broadcasts events of one name only.\<close>

lemma keeps_user_online:
  "(\<And>ids p. Q (ids, ''user-status-changed'', p)) \<Longrightarrow> keeps Q (user_online ws ev pl)"
  unfolding user_online_def by (intro keeps_intros keeps_broadcast)

lemma keeps_typing_status:
  "(\<And>ids p. Q (ids, ''typing-status'', p)) \<Longrightarrow> keeps Q (typing_status ws ev pl)"
  unfolding typing_status_def by (intro keeps_intros keeps_broadcastToConversation)

lemma keeps_start_call:
  "(\<And>ids p. Q (ids, ''incoming-call'', p)) \<Longrightarrow> keeps Q (start_call ws ev pl)"
  unfolding start_call_def by (intro keeps_intros keeps_broadcastToConversation)

lemma keeps_accept_call:
  "(\<And>ids p. Q (ids, ''call-accepted'', p)) \<Longrightarrow> keeps Q (accept_call ws ev pl)"
  unfolding accept_call_def by (intro keeps_intros keeps_broadcastToConversation)

lemma keeps_decline_call:
  "(\<And>ids p. Q (ids, ''call-declined'', p)) \<Longrightarrow> keeps Q (decline_call ws ev pl)"
  unfolding decline_call_def by (intro keeps_intros keeps_broadcastToConversation)

lemma keeps_end_call:
  "(\<And>ids p. Q (ids, ''call-ended'', p)) \<Longrightarrow> keeps Q (end_call ws ev pl)"
  unfolding end_call_def by (intro keeps_intros keeps_broadcastToConversation)

lemma keeps_toggle_media:
  "(\<And>ids p. Q (ids, ''participant-media-changed'', p)) \<Longrightarrow> keeps Q (toggle_media ty ws ev pl)"
  unfolding toggle_media_def by (intro keeps_intros keeps_broadcastToConversation)

lemma keeps_ice_candidate:
  "(\<And>ids p. Q (ids, ''ice-candidate'', p)) \<Longrightarrow> keeps Q (ice_candidate ws ev pl)"
  unfolding ice_candidate_def by (intro keeps_intros keeps_broadcast)

lemma keeps_webrtc_offer:
  "(\<And>ids p. Q (ids, ''webrtc-offer'', p)) \<Longrightarrow> keeps Q (webrtc_offer ws ev pl)"
  unfolding webrtc_offer_def by (intro keeps_intros keeps_broadcast)

lemma keeps_webrtc_answer:
  "(\<And>ids p. Q (ids, ''webrtc-answer'', p)) \<Longrightarrow> keeps Q (webrtc_answer ws ev pl)"
  unfolding webrtc_answer_def by (intro keeps_intros keeps_broadcast)

subsection \<open>The switch\<close>

lemma switch_typing: "switch (Some ''typing'') ws ev pl = typing_status ws ev pl"
  by (simp add: switch_def switch_clauses_def)

lemma switch_toggle:
  "ty \<in> {''toggle-mute'', ''toggle-video'', ''toggle-screen-share''} \<Longrightarrow>
   switch (Some ty) ws ev pl = toggle_media ty ws ev pl"
  by (auto simp: switch_def switch_clauses_def)

lemma handled_types_are_labels: "set handled_types = set (concat (map fst switch_clauses))"
  by (auto simp: handled_types_def switch_clauses_def)

lemma unhandled_ignored:
  "t \<notin> set handled_types \<Longrightarrow> switch (Some t) ws ev pl w = (Inr (), w)"
  by (simp add: handled_types_def switch_def switch_clauses_def returnM_def)

text \<open>
  Whatever the type, the clause that runs is not the second \<open>typing\<close> clause: the
  events broadcast are among \<open>emitted_types\<close>.
\<close>

lemma keeps_switch:
  assumes "\<And>ids ty p. ty \<in> set emitted_types \<Longrightarrow> Q (ids, ty, p)"
  shows "keeps Q (switch ty ws ev pl)"
proof (cases ty)
  case None
  then show ?thesis by (simp add: switch_def keeps_returnM)
next
  case (Some t)
  have Q: "\<And>ids p. Q (ids, ''user-status-changed'', p)" "\<And>ids p. Q (ids, ''typing-status'', p)"
    "\<And>ids p. Q (ids, ''incoming-call'', p)" "\<And>ids p. Q (ids, ''call-accepted'', p)"
    "\<And>ids p. Q (ids, ''call-declined'', p)" "\<And>ids p. Q (ids, ''call-ended'', p)"
    "\<And>ids p. Q (ids, ''participant-media-changed'', p)" "\<And>ids p. Q (ids, ''ice-candidate'', p)"
    "\<And>ids p. Q (ids, ''webrtc-offer'', p)" "\<And>ids p. Q (ids, ''webrtc-answer'', p)"
    by (rule assms, simp add: emitted_types_def)+
  note hs = keeps_user_online [of Q, OF Q(1)] keeps_typing_status [of Q, OF Q(2)]
    keeps_start_call [of Q, OF Q(3)] keeps_accept_call [of Q, OF Q(4)]
    keeps_decline_call [of Q, OF Q(5)] keeps_end_call [of Q, OF Q(6)]
    keeps_toggle_media [of Q, OF Q(7)] keeps_ice_candidate [of Q, OF Q(8)]
    keeps_webrtc_offer [of Q, OF Q(9)] keeps_webrtc_answer [of Q, OF Q(10)]
  show ?thesis
    unfolding Some switch_def switch_clauses_def
    by (simp add: hs keeps_returnM)
qed

lemma keeps_message_body:
  assumes "\<And>ids ty p. ty \<in> set emitted_types \<Longrightarrow> Q (ids, ty, p)"
  shows "keeps Q (message_body ws ev fr)"
  by (cases fr) (simp_all add: message_body_def keeps_throwM keeps_switch assms)

lemma on_message_trace: "trace (snd (on_message ws ev fr w)) = trace (snd (message_body ws ev fr w))"
  by (cases "message_body ws ev fr w")
     (auto simp: on_message_def try_catch_def console_error_def modifyM_def split: sum.splits)

subsection \<open>Typing and the media toggles\<close>

lemma typing_excludes_sender:
  assumes "userIdOf w ws = Some u"
  shows "extends (\<lambda>x. u \<notin> set (fst x)) w (snd (typing_status ws ev pl w))"
  unfolding typing_status_def
proof (rule extends_if_userId)
  fix v assume "userIdOf w ws = Some v"
  with assms have v: "v = u" by simp
  show "keeps (\<lambda>x. u \<notin> set (fst x))
          (bindM (the_payload pl) (\<lambda>p. if_str (p_conversationId p) (\<lambda>cid.
             thenM (storage (updateTypingStatus cid v (p_isTyping p) (now ev)))
               (broadcastToConversation cid ''typing-status'' (TypingStatus cid v (p_isTyping p)) (Some v)))))"
    unfolding v by (intro keeps_intros keeps_broadcastToConversation) simp
qed

lemma toggle_excludes_sender:
  assumes "userIdOf w ws = Some u"
  shows "extends (\<lambda>x. u \<notin> set (fst x)) w (snd (toggle_media ty ws ev pl w))"
  unfolding toggle_media_def
proof (rule extends_if_userId)
  fix v assume "userIdOf w ws = Some v"
  with assms have v: "v = u" by simp
  show "keeps (\<lambda>x. u \<notin> set (fst x))
          (bindM (the_payload pl) (\<lambda>p. if_str (p_callId p) (\<lambda>callId.
             thenM (storage (updateCallParticipant callId v
                \<lparr>set_isMuted = (if ty = ''toggle-mute'' then p_isMuted p else None),
                 set_isVideoOff = (if ty = ''toggle-video'' then p_isVideoOff p else None),
                 set_isScreenSharing = (if ty = ''toggle-screen-share'' then p_isScreenSharing p else None)\<rparr>))
             (bindM (storage (getCall callId)) (\<lambda>found.
                case found of
                  None \<Rightarrow> returnM ()
                | Some (call_id, c) \<Rightarrow>
                    if_str (conversationId c) (\<lambda>cid.
                      broadcastToConversation cid ''participant-media-changed''
                        (ParticipantMediaChanged (p_callId p) v p) (Some v)))))))"
    unfolding v by (intro keeps_intros keeps_broadcastToConversation) simp
qed

lemma self_triggered_excludes_sender:
  assumes "ty \<in> {''typing'', ''toggle-mute'', ''toggle-video'', ''toggle-screen-share''}"
    "userIdOf w ws = Some u"
  shows "extends (\<lambda>x. u \<notin> set (fst x)) w (snd (message_body ws ev (Envelope (Some ty) pl) w))"
proof (cases "ty = ''typing''")
  case True
  then show ?thesis using assms(2) by (simp add: message_body_def switch_typing typing_excludes_sender)
next
  case False
  with assms(1) have "ty \<in> {''toggle-mute'', ''toggle-video'', ''toggle-screen-share''}" by blast
  then show ?thesis using assms(2) by (simp add: message_body_def switch_toggle toggle_excludes_sender)
qed

lemma typing_exactly_one:
  assumes "userIdOf w ws = Some u" "u \<noteq> []" "p_conversationId p = Some cid" "cid \<noteq> []" "faultAt w = None"
  shows "trace (snd (typing_status ws ev (Some p) w))
           = trace w @ [(filter (\<lambda>i. i \<noteq> u) (participant_ids cid (store w)), ''typing-status'',
                         TypingStatus cid u (p_isTyping p))]"
proof -
  obtain st' where st': "updateTypingStatus cid u (p_isTyping p) (now ev) (store w) = Inr ((), st')"
    by (simp add: updateTypingStatus_def command_def)
  have ids: "participant_ids cid st' = participant_ids cid (store w)"
    using st' by (rule participant_ids_updateTypingStatus)
  have "trace (snd (typing_status ws ev (Some p) w))
           = trace w @ [(filter (\<lambda>i. i \<noteq> u) (participant_ids cid st'), ''typing-status'',
                         TypingStatus cid u (p_isTyping p))]"
    using assms
    by (simp add: typing_status_def monad_defs storage_ok st' broadcastToConversation_def
        getParticipants_def query_def broadcast_def broadcastToUsers_frame participant_ids_def)
  then show ?thesis by (simp add: ids)
qed

lemma typing_at_most_one:
  "length (trace (snd (typing_status ws ev pl w))) \<le> Suc (length (trace w))"
  by (auto simp: typing_status_def monad_defs storage_def updateTypingStatus_def command_def
      broadcastToConversation_def getParticipants_def query_def broadcast_def broadcastToUsers_frame
      split: option.splits nat.splits)

lemma typing_none:
  assumes "userIdOf w ws = None \<or> userIdOf w ws = Some [] \<or> pl = None
     \<or> (\<exists>p. pl = Some p \<and> (p_conversationId p = None \<or> p_conversationId p = Some []))"
  shows "trace (snd (typing_status ws ev pl w)) = trace w"
  using assms by (auto simp: typing_status_def monad_defs split: option.splits)

subsection \<open>The read route\<close>

lemma markMessageRead_ok:
  assumes "(\<exists>r \<in> set (messageReceipts st). rc_messageId r = mid \<and> rc_userId r = reader)
             \<or> new_id \<notin> rc_id ` set (messageReceipts st)"
  shows "\<exists>rs. markMessageRead mid reader new_id t st = Inr ((), st\<lparr>messageReceipts := rs\<rparr>)"
proof (cases "filter (\<lambda>r. rc_messageId r = mid \<and> rc_userId r = reader) (messageReceipts st)")
  case Nil
  then have "\<not> (\<exists>r \<in> set (messageReceipts st). rc_messageId r = mid \<and> rc_userId r = reader)"
    by (auto simp: filter_empty_conv)
  with assms have "new_id \<notin> rc_id ` set (messageReceipts st)" by blast
  with Nil have "markMessageRead mid reader new_id t st = Inr ((), st\<lparr>messageReceipts := messageReceipts st @
      [\<lparr>rc_id = new_id, rc_messageId = mid, rc_userId = reader, deliveredAt = None, readAt = Some t\<rparr>]\<rparr>)"
    by (simp add: markMessageRead_def)
  then show ?thesis by blast
next
  case (Cons r rs)
  show ?thesis
  proof (cases "readAt r")
    case None
    with Cons have "markMessageRead mid reader new_id t st = Inr ((), st\<lparr>messageReceipts :=
        map (\<lambda>x. if rc_id x = rc_id r then x\<lparr>readAt := Some t\<rparr> else x) (messageReceipts st)\<rparr>)"
      by (simp add: markMessageRead_def)
    then show ?thesis by blast
  next
    case (Some a)
    with Cons have "markMessageRead mid reader new_id t st = Inr ((), st\<lparr>messageReceipts := messageReceipts st\<rparr>)"
      by (simp add: markMessageRead_def)
    then show ?thesis by blast
  qed
qed

lemma mark_read_broadcasts_to_all:
  assumes "faultAt w = None" "messages (store w) mid = Some m" "senderId m \<noteq> reader"
    "\<exists>row \<in> set (conversationParticipants (store w)).
        part_conversationId row = msg_conversationId m \<and> part_userId row = reader"
    "(\<exists>r \<in> set (messageReceipts (store w)). rc_messageId r = mid \<and> rc_userId r = reader)
       \<or> uuid ev \<notin> rc_id ` set (messageReceipts (store w))"
  shows "fst (mark_read reader mid ev w) = Inr 200"
    and "trace (snd (mark_read reader mid ev w))
          = trace w @ [(participant_ids (msg_conversationId m) (store w), ''message-read'',
                        MessageRead mid (msg_conversationId m) reader (users (store w) reader) (now ev))]"
proof -
  from markMessageRead_ok [OF assms(5)] obtain rs where
    rs: "markMessageRead mid reader (uuid ev) (now ev) (store w) = Inr ((), (store w)\<lparr>messageReceipts := rs\<rparr>)"
    by blast
  have inconv: "filter (\<lambda>p. part_conversationId p = msg_conversationId m \<and> part_userId p = reader)
                    (conversationParticipants (store w)) \<noteq> []"
    using assms(4) by (auto simp: filter_empty_conv)
  show "fst (mark_read reader mid ev w) = Inr 200"
    using assms(1,2,3) inconv
    by (simp add: mark_read_def mark_read_body_def monad_defs storage_ok getMessage_def query_def
        isUserInConversation_def rs getUser_def broadcastToConversation_def getParticipants_def broadcast_def)
  show "trace (snd (mark_read reader mid ev w))
          = trace w @ [(participant_ids (msg_conversationId m) (store w), ''message-read'',
                        MessageRead mid (msg_conversationId m) reader (users (store w) reader) (now ev))]"
    using assms(1,2,3) inconv
    by (simp add: mark_read_def mark_read_body_def monad_defs storage_ok getMessage_def query_def
        isUserInConversation_def rs getUser_def broadcastToConversation_def getParticipants_def broadcast_def
        participant_ids_def participants_of_receipts broadcastToUsers_frame)
qed

subsection \<open>Start times and the clock\<close>

lemma started_by_mono: "started_by t st \<Longrightarrow> t \<le> t' \<Longrightarrow> started_by t' st"
  by (fastforce simp: started_by_def)

lemma started_by_same_calls: "calls st' = calls st \<Longrightarrow> started_by t st \<Longrightarrow> started_by t st'"
  by (simp add: started_by_def)

lemma preserves_returnM [preserves_intros]: "preserves P (returnM a)"
  by (simp add: preserves_def returnM_def)

lemma preserves_throwM [preserves_intros]: "preserves P (throwM e)"
  by (simp add: preserves_def throwM_def)

lemma preserves_getM [preserves_intros]: "preserves P (getM f)"
  by (simp add: preserves_def getM_def)

lemma preserves_bindM [preserves_intros]: "preserves P m \<Longrightarrow> (\<And>a. preserves P (f a)) \<Longrightarrow> preserves P (bindM m f)"
  unfolding preserves_def bindM_def
proof (intro allI impI)
  fix w :: world
  assume m: "\<forall>w. P (store w) \<longrightarrow> P (store (snd (m w)))"
    and f: "\<And>a. \<forall>w. P (store w) \<longrightarrow> P (store (snd (f a w)))" and p: "P (store w)"
  obtain r w1 where r: "m w = (r, w1)" by (cases "m w")
  with m p have 1: "P (store w1)" by (metis snd_conv)
  show "P (store (snd (case m w of (Inl e, w') \<Rightarrow> (Inl e, w') | (Inr a, w') \<Rightarrow> f a w')))"
  proof (cases r)
    case (Inl e)
    with r 1 show ?thesis by simp
  next
    case (Inr a)
    with r 1 f [of a] show ?thesis by simp
  qed
qed

lemma preserves_thenM [preserves_intros]: "preserves P m \<Longrightarrow> preserves P n \<Longrightarrow> preserves P (thenM m n)"
  by (simp add: thenM_def preserves_bindM)

lemma preserves_storage:
  "(\<And>st a st'. P st \<Longrightarrow> f st = Inr (a, st') \<Longrightarrow> P st') \<Longrightarrow> preserves P (storage f)"
  by (auto simp: preserves_def storage_def split: option.splits nat.splits sum.splits)

lemma preserves_broadcast [preserves_intros]: "preserves P (broadcast ids ty pl)"
  by (simp add: preserves_def broadcast_def modifyM_def store_broadcastToUsers)

lemma preserves_query [preserves_intros]: "preserves P (storage (query f))"
  by (rule preserves_storage) (simp add: query_def)

lemma preserves_broadcastToConversation [preserves_intros]: "preserves P (broadcastToConversation cid ty pl ex)"
  unfolding broadcastToConversation_def getParticipants_def
  by (intro preserves_bindM preserves_query preserves_broadcast)

lemma preserves_set_clients [preserves_intros]: "preserves P (modifyM (\<lambda>w. w\<lparr>clients := f w\<rparr>))"
  by (simp add: preserves_def modifyM_def)

lemma preserves_set_userIdOf [preserves_intros]: "preserves P (modifyM (\<lambda>w. w\<lparr>userIdOf := f w\<rparr>))"
  by (simp add: preserves_def modifyM_def)

lemma preserves_console_error: "preserves P (console_error e)"
  by (simp add: preserves_def console_error_def modifyM_def)

lemma preserves_if_str [preserves_intros]: "(\<And>v. preserves P (k v)) \<Longrightarrow> preserves P (if_str x k)"
  by (simp add: if_str_def preserves_returnM split: option.splits)

lemma preserves_if_json [preserves_intros]: "(\<And>v. preserves P (k v)) \<Longrightarrow> preserves P (if_json x k)"
  by (simp add: if_json_def preserves_returnM split: option.splits)

lemma preserves_the_payload [preserves_intros]: "preserves P (the_payload pl)"
  by (simp add: the_payload_def preserves_returnM preserves_throwM split: option.splits)

lemma preserves_if_userId [preserves_intros]: "(\<And>v. preserves P (k v)) \<Longrightarrow> preserves P (if_userId ws k)"
  unfolding if_userId_def by (intro preserves_bindM preserves_getM preserves_if_str)

lemma preserves_case_option [preserves_intros]:
  "preserves P a \<Longrightarrow> (\<And>x. preserves P (b x)) \<Longrightarrow> preserves P (case_option a b x)"
  by (cases x) simp_all

lemma preserves_case_prod [preserves_intros]: "(\<And>a b. preserves P (f a b)) \<Longrightarrow> preserves P (case_prod f x)"
  by (cases x) simp

lemma preserves_if: "preserves P a \<Longrightarrow> preserves P b \<Longrightarrow> preserves P (if c then a else b)"
  by simp

lemma preserves_try_catch:
  "preserves P m \<Longrightarrow> (\<And>e. preserves P (h e)) \<Longrightarrow> preserves P (try_catch m h)"
  unfolding preserves_def try_catch_def
proof (intro allI impI)
  fix w :: world
  assume m: "\<forall>w. P (store w) \<longrightarrow> P (store (snd (m w)))"
    and h: "\<And>e. \<forall>w. P (store w) \<longrightarrow> P (store (snd (h e w)))" and p: "P (store w)"
  obtain r w1 where r: "m w = (r, w1)" by (cases "m w")
  with m p have 1: "P (store w1)" by (metis snd_conv)
  show "P (store (snd (case m w of (Inl e, w') \<Rightarrow> h e w' | (Inr a, w') \<Rightarrow> (Inr a, w'))))"
  proof (cases r)
    case (Inl e)
    with r 1 h [of e] show ?thesis by simp
  next
    case (Inr a)
    with r 1 show ?thesis by simp
  qed
qed

text \<open>The storage methods and the start times.\<close>

lemma started_updateUserStatus [started_intros]:
  "started_by t st \<Longrightarrow> updateUserStatus uid s n st = Inr (a, st') \<Longrightarrow> started_by t st'"
  by (auto simp: updateUserStatus_def command_def started_by_def split: option.splits)

lemma started_updateTypingStatus [started_intros]:
  "started_by t st \<Longrightarrow> updateTypingStatus cid uid ty n st = Inr (a, st') \<Longrightarrow> started_by t st'"
  by (auto simp: updateTypingStatus_def command_def started_by_def)

lemma started_markMessageRead [started_intros]:
  "started_by t st \<Longrightarrow> markMessageRead mid uid i n st = Inr (a, st') \<Longrightarrow> started_by t st'"
  by (auto simp: markMessageRead_def started_by_def split: list.splits if_splits)

lemma started_createCall [started_intros]:
  "started_by t st \<Longrightarrow> createCall d i n st = Inr (a, st') \<Longrightarrow> started_by t st'"
  by (auto simp: createCall_def new_call_def started_by_def split: if_splits)

lemma started_addCallParticipant [started_intros]:
  "started_by t st \<Longrightarrow> addCallParticipant cid uid n st = Inr (a, st') \<Longrightarrow> started_by t st'"
  by (auto simp: addCallParticipant_def started_by_def split: if_splits)

lemma started_updateCallParticipant [started_intros]:
  "started_by t st \<Longrightarrow> updateCallParticipant cid uid d st = Inr (a, st') \<Longrightarrow> started_by t st'"
  by (auto simp: updateCallParticipant_def started_by_def split: if_splits)

lemma started_updateCall:
  assumes "started_by t st" "updateCall cid d st = Inr (a, st')"
    "set_startedAt d = None \<or> set_startedAt d = Some t"
  shows "started_by t st'"
  using assms
  by (auto simp: updateCall_def apply_call_patch_def started_by_def split: if_splits option.splits)

lemma started_user_online [started_handlers]: "preserves (started_by (now ev)) (user_online ws ev pl)"
  unfolding user_online_def getUserConversations_def
  by (intro preserves_intros preserves_storage; erule started_intros; assumption)

lemma started_typing_status [started_handlers]: "preserves (started_by (now ev)) (typing_status ws ev pl)"
  unfolding typing_status_def
  by (intro preserves_intros preserves_storage; erule started_intros; assumption)

lemma started_user_typing [started_handlers]: "preserves (started_by (now ev)) (user_typing ws ev pl)"
  unfolding user_typing_def
  by (intro preserves_intros preserves_storage; erule started_intros; assumption)

lemma started_start_call [started_handlers]: "preserves (started_by (now ev)) (start_call ws ev pl)"
  unfolding start_call_def getUser_def
  by (intro preserves_intros preserves_storage; erule started_intros; assumption)

lemma started_toggle_media [started_handlers]: "preserves (started_by (now ev)) (toggle_media ty ws ev pl)"
  unfolding toggle_media_def getCall_def
  by (intro preserves_intros preserves_storage; erule started_intros; assumption)


lemma started_accept_call [started_handlers]: "preserves (started_by (now ev)) (accept_call ws ev pl)"
  unfolding accept_call_def getCall_def
  apply (intro preserves_intros preserves_storage)
   apply (erule started_intros, assumption)
  apply (erule started_updateCall, assumption, simp)
  done

lemma started_decline_call [started_handlers]: "preserves (started_by (now ev)) (decline_call ws ev pl)"
  unfolding decline_call_def getCall_def
  apply (intro preserves_intros preserves_storage)
  apply (erule started_updateCall, assumption, simp)
  done

lemma started_end_call [started_handlers]: "preserves (started_by (now ev)) (end_call ws ev pl)"
  unfolding end_call_def getCall_def
  apply (intro preserves_intros preserves_storage)
  apply (erule started_updateCall, assumption, simp)
  done

lemma started_ice_candidate [started_handlers]: "preserves (started_by (now ev)) (ice_candidate ws ev pl)"
  unfolding ice_candidate_def by (intro preserves_intros)

lemma started_webrtc_offer [started_handlers]: "preserves (started_by (now ev)) (webrtc_offer ws ev pl)"
  unfolding webrtc_offer_def by (intro preserves_intros)

lemma started_webrtc_answer [started_handlers]: "preserves (started_by (now ev)) (webrtc_answer ws ev pl)"
  unfolding webrtc_answer_def by (intro preserves_intros)

lemma started_switch: "preserves (started_by (now ev)) (switch ty ws ev pl)"
proof (cases ty)
  case None
  then show ?thesis by (simp add: switch_def preserves_returnM)
next
  case (Some t)
  show ?thesis
    unfolding Some switch_def switch_clauses_def
    by (simp add: started_handlers preserves_returnM)
qed

lemma started_on_message: "preserves (started_by (now ev)) (on_message ws ev fr)"
  unfolding on_message_def
  by (intro preserves_try_catch preserves_console_error)
     (cases fr; simp add: message_body_def preserves_throwM started_switch)

lemma started_on_close: "preserves (started_by (now ev)) (on_close ws ev)"
  unfolding on_close_def getUserConversations_def
  by (intro preserves_intros preserves_storage; erule started_intros; assumption)

lemma started_mark_read: "preserves (started_by (now ev)) (mark_read reader mid ev)"
  unfolding mark_read_def mark_read_body_def getMessage_def isUserInConversation_def getUser_def
  by (intro preserves_try_catch preserves_intros preserves_console_error preserves_storage
        preserves_if [where P = "started_by (now ev)"] | erule started_intros, assumption)+


lemma started_step:
  assumes "started_by t (store w)" "t \<le> now (fst x)"
  shows "started_by (now (fst x)) (store (step x w))"
proof -
  obtain ev e where x: "x = (ev, e)" by (cases x)
  from assms x have s: "started_by (now ev) (store w)" by (auto intro: started_by_mono)
  show ?thesis
  proof (cases e)
    case (Connection ws)
    with x s show ?thesis by (simp add: step_def on_connection_def)
  next
    case (Message ws fr)
    from started_on_message [of ev ws fr] s
    have "started_by (now ev) (store (snd (on_message ws ev fr (w\<lparr>faultAt := fault ev\<rparr>))))"
      by (simp add: preserves_def)
    with x Message show ?thesis by (simp add: step_def)
  next
    case (Close ws)
    from started_on_close [of ev ws] s
    have "started_by (now ev) (store (snd (on_close ws ev (closed ws (w\<lparr>faultAt := fault ev\<rparr>)))))"
      by (simp add: preserves_def closed_def)
    with x Close show ?thesis by (simp add: step_def)
  next
    case (MarkRead reader mid)
    from started_mark_read [of ev reader mid] s
    have "started_by (now ev) (store (snd (mark_read reader mid ev (w\<lparr>faultAt := fault ev\<rparr>))))"
      by (simp add: preserves_def)
    with x MarkRead show ?thesis by (simp add: step_def)
  qed
qed

lemma started_run:
  assumes "sorted (map (\<lambda>x. now (fst x)) xs)" "started_by t (store w)" "\<forall>x \<in> set xs. t \<le> now (fst x)"
  shows "started_by (last (t # map (\<lambda>x. now (fst x)) xs)) (store (run xs w))"
  using assms
proof (induction xs arbitrary: t w)
  case Nil
  then show ?case by (simp add: run_def)
next
  case (Cons x xs)
  from Cons.prems have a: "started_by t (store w)" "t \<le> now (fst x)" by simp_all
  have 1: "started_by (now (fst x)) (store (step x w))"
    by (rule started_step [OF a])
  from Cons.prems have 2: "sorted (map (\<lambda>x. now (fst x)) xs)" "\<forall>y \<in> set xs. now (fst x) \<le> now (fst y)"
    by simp_all
  from Cons.IH [OF 2(1) 1 2(2)] show ?case by (simp add: run_def)
qed

text \<open>
  In a run from a store without calls in which the clock never goes back, a start
  time in the store is not later than the time of the next event.
\<close>

lemma started_before_clock:
  assumes "calls (store w0) = Map.empty" "sorted (map (\<lambda>x. now (fst x)) (xs @ [x]))"
    "calls (store (run xs w0)) cid = Some c" "startedAt c = Some s"
  shows "s \<le> now (fst x)"
proof -
  let ?t = "now (fst (hd (xs @ [x])))"
  have 0: "started_by ?t (store w0)" using assms(1) by (simp add: started_by_def)
  from assms(2) have srt: "sorted (map (\<lambda>x. now (fst x)) xs)" "\<forall>y \<in> set xs. now (fst y) \<le> now (fst x)"
    by (simp_all add: sorted_append)
  from assms(2) have lo: "\<forall>y \<in> set xs. ?t \<le> now (fst y)"
    by (cases xs) (auto simp: sorted_append)
  from started_run [OF srt(1) 0 lo]
  have "started_by (last (?t # map (\<lambda>x. now (fst x)) xs)) (store (run xs w0))" .
  moreover have "last (?t # map (\<lambda>x. now (fst x)) xs) \<le> now (fst x)"
    using srt(2) by (cases xs rule: rev_cases) auto
  ultimately have "started_by (now (fst x)) (store (run xs w0))" by (rule started_by_mono)
  with assms(3,4) show ?thesis by (auto simp: started_by_def)
qed

section \<open>The claims\<close>

text \<open>
  Claim C1, as the handlers have it. For an existing call and an \<open>accept-call\<close>,
  \<open>decline-call\<close> or \<open>end-call\<close> event for it from a bound identity, with the storage
  calls succeeding (none rejected by the environment; for \<open>accept-call\<close> the identity
  is a user, for \<open>end-call\<close> the duration fits the integer column), the status of the
  call after the event is \<open>active\<close>, \<open>declined\<close> or \<open>ended\<close> respectively, whatever it
  was before: no handler reads the status it replaces, so a call that was declined
  becomes active on a later \<open>accept-call\<close>.
\<close>

theorem call_status_set_by_event:
  assumes "userIdOf w ws = Some u" "u \<noteq> []" "p_callId p = Some cid" "cid \<noteq> []"
    "calls (store w) cid = Some c" "faultAt w = None"
  shows "(users (store w) u \<noteq> None \<longrightarrow>
           map_option status (calls (store (snd (on_message ws ev (Envelope (Some ''accept-call'') (Some p)) w))) cid) = Some active)
    \<and> map_option status (calls (store (snd (on_message ws ev (Envelope (Some ''decline-call'') (Some p)) w))) cid)
           = Some declined
    \<and> (int4 (call_duration c (now ev)) \<longrightarrow>
           map_option status (calls (store (snd (on_message ws ev (Envelope (Some ''end-call'') (Some p)) w))) cid) = Some ended)"
  using assms
  by (auto simp: on_message_def message_body_def switch_def switch_clauses_def accept_call_def
      decline_call_def end_call_def monad_defs storage_ok getCall_def updateCall_def apply_call_patch_def
      addCallParticipant_def query_def broadcastToConversation_def getParticipants_def broadcast_def
      broadcastToUsers_frame split: option.splits)

text \<open>A declined call, and \<open>accept-call\<close> from \<open>B\<close>: the call is active.\<close>

theorem call_status_set_by_event_witness:
  "map_option status (calls (store (world_with_call (demo_call declined None))) ''c1'') = Some declined
   \<and> map_option status
        (calls (store (snd (on_message 2 (at_time 7000) (call_msg ''accept-call'')
                             (world_with_call (demo_call declined None))))) ''c1'')
       = Some active"
proof -
  let ?w = "world_with_call (demo_call declined None)"
  let ?p = "empty_payload\<lparr>p_callId := Some ''c1''\<rparr>"
  have h: "userIdOf ?w 2 = Some ''B''" "''B'' \<noteq> []" "p_callId ?p = Some ''c1''" "''c1'' \<noteq> []"
    "calls (store ?w) ''c1'' = Some (demo_call declined None)" "faultAt ?w = None"
    by (simp_all add: demo_defs world_with_call_def)
  have k: "users (store ?w) ''B'' \<noteq> None"
    by (simp add: demo_defs world_with_call_def)
  from call_status_set_by_event [where ev = "at_time 7000", OF h]
  show ?thesis using h(5) k by (simp add: call_msg_def demo_call_def)
qed

text \<open>
  The run in which \<open>B\<close> declines and then accepts: the call goes from \<open>initiated\<close> to
  \<open>declined\<close> to \<open>active\<close>, which is in none of the orders of the specification.
\<close>

theorem status_order_counterexample:
  "status_history ''c1'' decline_then_accept demo_world = [initiated, declined, active]
   \<and> \<not> spec_status_order (status_history ''c1'' decline_then_accept demo_world)"
proof -
  have 1: "status_history ''c1'' decline_then_accept demo_world = [initiated, declined, active]"
    by (simp add: status_history_def decline_then_accept_def step_def eval_defs demo_defs)
  have 2: "\<not> spec_status_order [initiated, declined, active]"
    by (simp add: spec_status_order_def spec_paths_def)
  show ?thesis by (simp add: 1 2)
qed

text \<open>
  Claim C2, as the handler has it. A \<open>decline-call\<close> from a bound identity for an
  existing call whose status is \<open>ended\<close>, \<open>declined\<close> or \<open>missed\<close>, the storage calls
  succeeding, sets the status to \<open>declined\<close> and leaves the other columns alone, so
  that a call already declined keeps its row. When the call has a conversation, one
  \<open>call-declined\<close> event is broadcast to all participants of the conversation and
  sent on the open socket of each; when it has none, nothing is broadcast or sent,
  and for a call already declined nothing changes at all.
\<close>

theorem decline_terminal_call:
  assumes "userIdOf w ws = Some u" "u \<noteq> []" "p_callId p = Some cid" "cid \<noteq> []"
    "calls (store w) cid = Some c" "status c \<in> {ended, declined, missed}" "faultAt w = None"
  shows "calls (store (snd (on_message ws ev (Envelope (Some ''decline-call'') (Some p)) w))) cid
           = Some (c\<lparr>status := declined\<rparr>)
    \<and> (status c = declined \<longrightarrow>
          calls (store (snd (on_message ws ev (Envelope (Some ''decline-call'') (Some p)) w))) cid = Some c)
    \<and> (\<forall>conv. conversationId c = Some conv \<and> conv \<noteq> [] \<longrightarrow>
          trace (snd (on_message ws ev (Envelope (Some ''decline-call'') (Some p)) w))
            = trace w @ [(participant_ids conv (store w), ''call-declined'', CallDeclined cid u)]
          \<and> (\<forall>k. outbox (sockets (snd (on_message ws ev (Envelope (Some ''decline-call'') (Some p)) w)) k)
                 = outbox (sockets w k)
                   @ deliveries (participant_ids conv (store w)) (''call-declined'', CallDeclined cid u) w k))
    \<and> (conversationId c = None \<or> conversationId c = Some [] \<longrightarrow>
          trace (snd (on_message ws ev (Envelope (Some ''decline-call'') (Some p)) w)) = trace w
          \<and> sockets (snd (on_message ws ev (Envelope (Some ''decline-call'') (Some p)) w)) = sockets w)
    \<and> (status c = declined \<and> (conversationId c = None \<or> conversationId c = Some []) \<longrightarrow>
          snd (on_message ws ev (Envelope (Some ''decline-call'') (Some p)) w) = w)"
proof -
  have row: "status c = declined \<Longrightarrow> c\<lparr>status := declined\<rparr> = c"
    by (cases c) simp
  have 1: "calls (store (snd (on_message ws ev (Envelope (Some ''decline-call'') (Some p)) w))) cid
           = Some (c\<lparr>status := declined\<rparr>)"
    using assms(1-5,7)
    by (auto simp: on_message_def message_body_def switch_def switch_clauses_def decline_call_def
        monad_defs storage_ok getCall_def updateCall_def apply_call_patch_def
        query_def broadcastToConversation_def getParticipants_def broadcast_def
        broadcastToUsers_frame split: option.splits)
  have 2: "status c = declined \<longrightarrow>
          calls (store (snd (on_message ws ev (Envelope (Some ''decline-call'') (Some p)) w))) cid = Some c"
    using 1 row by simp
  have 3: "\<forall>conv. conversationId c = Some conv \<and> conv \<noteq> [] \<longrightarrow>
          trace (snd (on_message ws ev (Envelope (Some ''decline-call'') (Some p)) w))
            = trace w @ [(participant_ids conv (store w), ''call-declined'', CallDeclined cid u)]
          \<and> (\<forall>k. outbox (sockets (snd (on_message ws ev (Envelope (Some ''decline-call'') (Some p)) w)) k)
                 = outbox (sockets w k)
                   @ deliveries (participant_ids conv (store w)) (''call-declined'', CallDeclined cid u) w k)"
    using assms(1-5,7)
    by (auto simp: on_message_def message_body_def switch_def switch_clauses_def decline_call_def
        monad_defs storage_ok getCall_def updateCall_def apply_call_patch_def participants_of_def
        participant_ids_def query_def broadcastToConversation_def getParticipants_def broadcast_def
        broadcastToUsers_frame outbox_broadcastToUsers deliveries_store)
  have 4: "conversationId c = None \<or> conversationId c = Some [] \<longrightarrow>
          trace (snd (on_message ws ev (Envelope (Some ''decline-call'') (Some p)) w)) = trace w
          \<and> sockets (snd (on_message ws ev (Envelope (Some ''decline-call'') (Some p)) w)) = sockets w"
    using assms(1-5,7)
    by (auto simp: on_message_def message_body_def switch_def switch_clauses_def decline_call_def
        monad_defs storage_ok getCall_def updateCall_def apply_call_patch_def query_def)
  have 5: "status c = declined \<and> (conversationId c = None \<or> conversationId c = Some []) \<longrightarrow>
          snd (on_message ws ev (Envelope (Some ''decline-call'') (Some p)) w) = w"
    using assms(1-5,7)
    by (auto simp: on_message_def message_body_def switch_def switch_clauses_def decline_call_def
        monad_defs storage_ok getCall_def updateCall_def apply_call_patch_def query_def row map_upd_triv)
  show ?thesis using 1 2 3 4 5 by blast
qed

text \<open>
  An ended call of the conversation of \<open>A\<close> and \<open>B\<close>, declined by \<open>B\<close>: the event is
  sent on the sockets of both.
\<close>

theorem decline_terminal_call_witness:
  "status (demo_call ended (Some 6000)) = ended
   \<and> map_option status
        (calls (store (snd (on_message 2 (at_time 9900) (call_msg ''decline-call'')
                             (world_with_call (demo_call ended (Some 6000)))))) ''c1'')
       = Some declined
   \<and> trace (snd (on_message 2 (at_time 9900) (call_msg ''decline-call'')
                   (world_with_call (demo_call ended (Some 6000)))))
       = [([''A'', ''B''], ''call-declined'', CallDeclined ''c1'' ''B'')]
   \<and> outbox (sockets (snd (on_message 2 (at_time 9900) (call_msg ''decline-call'')
                             (world_with_call (demo_call ended (Some 6000))))) 1)
       = [(''call-declined'', CallDeclined ''c1'' ''B'')]
   \<and> outbox (sockets (snd (on_message 2 (at_time 9900) (call_msg ''decline-call'')
                             (world_with_call (demo_call ended (Some 6000))))) 2)
       = [(''call-declined'', CallDeclined ''c1'' ''B'')]"
proof -
  let ?c = "demo_call ended (Some 6000)"
  let ?w = "world_with_call ?c"
  let ?p = "empty_payload\<lparr>p_callId := Some ''c1''\<rparr>"
  have h: "userIdOf ?w 2 = Some ''B''" "''B'' \<noteq> []" "p_callId ?p = Some ''c1''" "''c1'' \<noteq> []"
    "calls (store ?w) ''c1'' = Some ?c" "status ?c \<in> {ended, declined, missed}" "faultAt ?w = None"
    by (simp_all add: demo_defs world_with_call_def demo_call_def)
  have k: "conversationId ?c = Some ''k''" "trace ?w = []"
    "participant_ids ''k'' (store ?w) = [''A'', ''B'']"
    "outbox (sockets ?w 1) = []" "outbox (sockets ?w 2) = []"
    "deliveries [''A'', ''B''] (''call-declined'', CallDeclined ''c1'' ''B'') ?w 1
       = [(''call-declined'', CallDeclined ''c1'' ''B'')]"
    "deliveries [''A'', ''B''] (''call-declined'', CallDeclined ''c1'' ''B'') ?w 2
       = [(''call-declined'', CallDeclined ''c1'' ''B'')]"
    by (simp_all add: demo_defs world_with_call_def demo_call_def participant_ids_def participants_of_def
        deliveries_def List.map_filter_simps)
  have e: "map (\<lambda>k. outbox (sockets (snd (on_message 2 (at_time 9900) (call_msg ''decline-call'') ?w)) k)) [1, 2]
      = [[(''call-declined'', CallDeclined ''c1'' ''B'')], [(''call-declined'', CallDeclined ''c1'' ''B'')]]"
    by (simp add: eval_defs demo_defs world_with_call_def demo_call_def)
  from decline_terminal_call [where ev = "at_time 9900", OF h]
  show ?thesis using k e by (simp add: call_msg_def demo_call_def)
qed

text \<open>
  After \<open>A\<close> has ended the call, \<open>decline-call\<close> from \<open>B\<close> changes the stored status from
  \<open>ended\<close> to \<open>declined\<close> and broadcasts \<open>call-declined\<close>.
\<close>

theorem decline_ended_counterexample:
  "map_option status (calls (store (run accept_then_end demo_world)) ''c1'') = Some ended
   \<and> map_option status
        (calls (store (step (at_time 9900, Message 2 (call_msg ''decline-call''))
                         (run accept_then_end demo_world))) ''c1'')
       = Some declined
   \<and> trace (step (at_time 9900, Message 2 (call_msg ''decline-call'')) (run accept_then_end demo_world))
       = trace (run accept_then_end demo_world)
         @ [([''A'', ''B''], ''call-declined'', CallDeclined ''c1'' ''B'')]"
  by (simp add: accept_then_end_def call_accepted_def run_def step_def eval_defs demo_defs)

text \<open>
  Claim C3, as the code has it. The broadcast of a \<open>typing\<close> event and of a media
  toggle never has the identity bound to the sending connection among its
  recipients. The \<open>message-read\<close> broadcast of the read route goes to all participants
  of the conversation: for a reader who is a participant and a user, the reader is
  among the recipients.
\<close>

theorem broadcast_exclusion:
  "(ty \<in> {''typing'', ''toggle-mute'', ''toggle-video'', ''toggle-screen-share''} \<and> userIdOf w ws = Some u \<longrightarrow>
      (\<forall>x \<in> set (drop (length (trace w)) (trace (snd (on_message ws ev (Envelope (Some ty) pl) w)))).
          u \<notin> set (fst x)))
   \<and> (faultAt w = None \<and> messages (store w) mid = Some m \<and> senderId m \<noteq> reader
        \<and> (\<exists>row \<in> set (conversationParticipants (store w)).
              part_conversationId row = msg_conversationId m \<and> part_userId row = reader)
        \<and> ((\<exists>r \<in> set (messageReceipts (store w)). rc_messageId r = mid \<and> rc_userId r = reader)
             \<or> uuid ev \<notin> rc_id ` set (messageReceipts (store w))) \<longrightarrow>
      fst (mark_read reader mid ev w) = Inr 200
      \<and> trace (snd (mark_read reader mid ev w))
          = trace w @ [(participant_ids (msg_conversationId m) (store w), ''message-read'',
                        MessageRead mid (msg_conversationId m) reader (users (store w) reader) (now ev))]
      \<and> (users (store w) reader \<noteq> None \<longrightarrow> reader \<in> set (participant_ids (msg_conversationId m) (store w))))"
proof -
  have a: "ty \<in> {''typing'', ''toggle-mute'', ''toggle-video'', ''toggle-screen-share''} \<and> userIdOf w ws = Some u \<longrightarrow>
      (\<forall>x \<in> set (drop (length (trace w)) (trace (snd (on_message ws ev (Envelope (Some ty) pl) w)))).
          u \<notin> set (fst x))"
    unfolding on_message_trace
    by (intro impI extends_new self_triggered_excludes_sender) simp_all
  have b: "faultAt w = None \<and> messages (store w) mid = Some m \<and> senderId m \<noteq> reader
        \<and> (\<exists>row \<in> set (conversationParticipants (store w)).
              part_conversationId row = msg_conversationId m \<and> part_userId row = reader)
        \<and> ((\<exists>r \<in> set (messageReceipts (store w)). rc_messageId r = mid \<and> rc_userId r = reader)
             \<or> uuid ev \<notin> rc_id ` set (messageReceipts (store w))) \<longrightarrow>
      fst (mark_read reader mid ev w) = Inr 200
      \<and> trace (snd (mark_read reader mid ev w))
          = trace w @ [(participant_ids (msg_conversationId m) (store w), ''message-read'',
                        MessageRead mid (msg_conversationId m) reader (users (store w) reader) (now ev))]
      \<and> (users (store w) reader \<noteq> None \<longrightarrow> reader \<in> set (participant_ids (msg_conversationId m) (store w)))"
  proof (intro impI, elim conjE)
    assume h: "faultAt w = None" "messages (store w) mid = Some m" "senderId m \<noteq> reader"
      "\<exists>row \<in> set (conversationParticipants (store w)).
              part_conversationId row = msg_conversationId m \<and> part_userId row = reader"
      "(\<exists>r \<in> set (messageReceipts (store w)). rc_messageId r = mid \<and> rc_userId r = reader)
             \<or> uuid ev \<notin> rc_id ` set (messageReceipts (store w))"
    note mr = mark_read_broadcasts_to_all [OF h]
    show "fst (mark_read reader mid ev w) = Inr 200
      \<and> trace (snd (mark_read reader mid ev w))
          = trace w @ [(participant_ids (msg_conversationId m) (store w), ''message-read'',
                        MessageRead mid (msg_conversationId m) reader (users (store w) reader) (now ev))]
      \<and> (users (store w) reader \<noteq> None \<longrightarrow> reader \<in> set (participant_ids (msg_conversationId m) (store w)))"
      using reader_is_participant [OF h(4)] by (simp add: mr)
  qed
  show ?thesis using a b by blast
qed

text \<open>
  \<open>B\<close> types in the conversation: the one broadcast does not go to \<open>B\<close>. \<open>B\<close> reads
  the message of \<open>A\<close>: the request succeeds and \<open>B\<close> is a recipient of its broadcast.
\<close>

theorem broadcast_exclusion_witness:
  "userIdOf demo_world 2 = Some ''B''
   \<and> length (drop (length (trace demo_world))
               (trace (snd (on_message 2 (at_time 8000) (conv_msg ''typing'') demo_world)))) = 1
   \<and> list_all (\<lambda>x. ''B'' \<notin> set (fst x))
        (drop (length (trace demo_world))
           (trace (snd (on_message 2 (at_time 8000) (conv_msg ''typing'') demo_world))))
   \<and> fst (mark_read ''B'' ''m1'' (at_time 8000) demo_world) = Inr 200
   \<and> ''B'' \<in> set (participant_ids ''k'' (store demo_world))"
proof -
  let ?m = "\<lparr>msg_conversationId = ''k'', senderId = ''A''\<rparr>"
  note t = broadcast_exclusion [where ty = "''typing''" and w = demo_world and ws = 2 and u = "''B''"
      and ev = "at_time 8000" and pl = "Some (empty_payload\<lparr>p_conversationId := Some ''k''\<rparr>)"
      and mid = "''m1''" and m = ?m and reader = "''B''"]
  have h1: "userIdOf demo_world 2 = Some ''B''" by (simp add: demo_defs)
  have h2: "faultAt demo_world = None \<and> messages (store demo_world) ''m1'' = Some ?m \<and> senderId ?m \<noteq> ''B''
        \<and> (\<exists>row \<in> set (conversationParticipants (store demo_world)).
              part_conversationId row = msg_conversationId ?m \<and> part_userId row = ''B'')
        \<and> ((\<exists>r \<in> set (messageReceipts (store demo_world)). rc_messageId r = ''m1'' \<and> rc_userId r = ''B'')
             \<or> uuid (at_time 8000) \<notin> rc_id ` set (messageReceipts (store demo_world)))"
    by (simp add: demo_defs)
  have h3: "users (store demo_world) ''B'' \<noteq> None" by (simp add: demo_defs)
  have n: "length (drop (length (trace demo_world))
               (trace (snd (on_message 2 (at_time 8000) (conv_msg ''typing'') demo_world)))) = 1"
    by (simp add: eval_defs demo_defs)
  from t h1 have "list_all (\<lambda>x. ''B'' \<notin> set (fst x))
        (drop (length (trace demo_world))
           (trace (snd (on_message 2 (at_time 8000) (conv_msg ''typing'') demo_world))))"
    by (simp add: list_all_iff conv_msg_def)
  moreover from t h2 h3 have "fst (mark_read ''B'' ''m1'' (at_time 8000) demo_world) = Inr 200
      \<and> ''B'' \<in> set (participant_ids ''k'' (store demo_world))"
    by simp
  ultimately show ?thesis using h1 n by simp
qed

text \<open>
  \<open>B\<close> marks the message of \<open>A\<close> read: the \<open>message-read\<close> event is broadcast to \<open>A\<close> and
  \<open>B\<close>, and it is sent on the socket of \<open>B\<close>.
\<close>

theorem read_receipt_counterexample:
  "userIdOf demo_world 2 = Some ''B''
   \<and> clients demo_world ''B'' = Some 2
   \<and> trace (step (at_time 8000, MarkRead ''B'' ''m1'') demo_world)
       = [([''A'', ''B''], ''message-read'', MessageRead ''m1'' ''k'' ''B'' (Some bob) 8000)]
   \<and> outbox (sockets (step (at_time 8000, MarkRead ''B'' ''m1'') demo_world) 2)
       = [(''message-read'', MessageRead ''m1'' ''k'' ''B'' (Some bob) 8000)]"
  by (simp add: step_def mark_read_def mark_read_body_def getMessage_def isUserInConversation_def
      markMessageRead_def eval_defs demo_defs)

text \<open>
  Claim C4, as the handler has it. An \<open>end-call\<close> event from a bound identity for an
  existing call, no storage call rejected by the environment, stores status \<open>ended\<close>,
  the time of the event as \<open>endedAt\<close>, and as \<open>duration\<close>: the whole seconds from
  \<open>startedAt\<close> to \<open>endedAt\<close>, rounded down, when the call has a \<open>startedAt\<close>, and 0 when
  it has none; that is when the duration fits the integer column, and the call is
  left as it was when it does not. Nothing clamps the duration: it is not negative
  exactly when the end is not stamped before the start. That is so whenever the
  server has come from a store without calls by a run of events in which the clock
  never went back.
\<close>

theorem end_call_duration:
  assumes "userIdOf w ws = Some u" "u \<noteq> []" "p_callId p = Some cid" "cid \<noteq> []"
    "calls (store w) cid = Some c" "faultAt w = None"
  shows "(int4 (call_duration c (now ev)) \<longrightarrow>
          calls (store (snd (on_message ws ev (Envelope (Some ''end-call'') (Some p)) w))) cid
           = Some (c\<lparr>status := ended, endedAt := Some (now ev), duration := Some (call_duration c (now ev))\<rparr>))
    \<and> (\<not> int4 (call_duration c (now ev)) \<longrightarrow>
          calls (store (snd (on_message ws ev (Envelope (Some ''end-call'') (Some p)) w))) cid = Some c)
    \<and> (\<forall>t. startedAt c = Some t \<longrightarrow> call_duration c (now ev) = (now ev - t) div 1000)
    \<and> (startedAt c = None \<longrightarrow> call_duration c (now ev) = 0)
    \<and> (\<forall>t. startedAt c = Some t \<longrightarrow> (0 \<le> call_duration c (now ev) \<longleftrightarrow> t \<le> now ev))
    \<and> (\<forall>w0 xs. calls (store w0) = Map.empty
          \<and> sorted (map (\<lambda>x. now (fst x)) (xs @ [(ev, Message ws (Envelope (Some ''end-call'') (Some p)))]))
          \<and> w = run xs w0 \<longrightarrow> 0 \<le> call_duration c (now ev))"
proof -
  have 1: "int4 (call_duration c (now ev)) \<longrightarrow>
          calls (store (snd (on_message ws ev (Envelope (Some ''end-call'') (Some p)) w))) cid
           = Some (c\<lparr>status := ended, endedAt := Some (now ev), duration := Some (call_duration c (now ev))\<rparr>)"
    using assms
    by (auto simp: on_message_def message_body_def switch_def switch_clauses_def end_call_def monad_defs
        storage_ok getCall_def updateCall_def apply_call_patch_def query_def
        broadcastToConversation_def getParticipants_def broadcast_def broadcastToUsers_frame
        split: option.splits)
  have 2: "\<not> int4 (call_duration c (now ev)) \<longrightarrow>
          calls (store (snd (on_message ws ev (Envelope (Some ''end-call'') (Some p)) w))) cid = Some c"
    using assms
    by (auto simp: on_message_def message_body_def switch_def switch_clauses_def end_call_def monad_defs
        storage_ok getCall_def updateCall_def apply_call_patch_def query_def
        split: option.splits)
  have 3: "\<forall>t. startedAt c = Some t \<longrightarrow> call_duration c (now ev) = (now ev - t) div 1000"
    by (simp add: call_duration_def)
  have 4: "startedAt c = None \<longrightarrow> call_duration c (now ev) = 0"
    by (simp add: call_duration_def)
  have 5: "\<forall>t. startedAt c = Some t \<longrightarrow> (0 \<le> call_duration c (now ev) \<longleftrightarrow> t \<le> now ev)"
    by (simp add: call_duration_def pos_imp_zdiv_nonneg_iff)
  have 6: "\<forall>w0 xs. calls (store w0) = Map.empty
          \<and> sorted (map (\<lambda>x. now (fst x)) (xs @ [(ev, Message ws (Envelope (Some ''end-call'') (Some p)))]))
          \<and> w = run xs w0 \<longrightarrow> 0 \<le> call_duration c (now ev)"
  proof (intro allI impI, elim conjE)
    fix w0 xs
    assume h: "calls (store w0) = Map.empty"
      "sorted (map (\<lambda>x. now (fst x)) (xs @ [(ev, Message ws (Envelope (Some ''end-call'') (Some p)))]))"
      "w = run xs w0"
    show "0 \<le> call_duration c (now ev)"
    proof (cases "startedAt c")
      case None
      then show ?thesis by (simp add: call_duration_def)
    next
      case (Some t)
      from assms(5) h(3) have "calls (store (run xs w0)) cid = Some c" by simp
      from started_before_clock [OF h(1) h(2) this Some] have "t \<le> now ev" by simp
      with Some show ?thesis by (simp add: call_duration_def pos_imp_zdiv_nonneg_iff)
    qed
  qed
  show ?thesis using 1 2 3 4 5 6 by blast
qed

text \<open>
  The call that \<open>B\<close> accepted at 6000 ms, ended by \<open>A\<close> at 9500 ms: 3 seconds.
\<close>

theorem end_call_duration_witness:
  "calls (store demo_world) = Map.empty
   \<and> sorted (map (\<lambda>x. now (fst x)) (call_accepted @ [(at_time 9500, Message 1 (call_msg ''end-call''))]))
   \<and> map_option startedAt (calls (store (run call_accepted demo_world)) ''c1'') = Some (Some 6000)
   \<and> map_option duration
        (calls (store (snd (on_message 1 (at_time 9500) (call_msg ''end-call'')
                             (run call_accepted demo_world)))) ''c1'')
       = Some (Some 3)
   \<and> map_option status
        (calls (store (snd (on_message 1 (at_time 9500) (call_msg ''end-call'')
                             (run call_accepted demo_world)))) ''c1'')
       = Some ended
   \<and> 0 \<le> call_duration
          \<lparr>conversationId = Some ''k'', initiatorId = ''A'', ctype = voice, status = active,
             startedAt = Some 6000, endedAt = None, duration = None, createdAt = Some 5000\<rparr>
          (now (at_time 9500))"
proof -
  let ?c = "\<lparr>conversationId = Some ''k'', initiatorId = ''A'', ctype = voice, status = active,
             startedAt = Some 6000, endedAt = None, duration = None, createdAt = Some 5000\<rparr>"
  let ?w = "run call_accepted demo_world"
  let ?p = "empty_payload\<lparr>p_callId := Some ''c1''\<rparr>"
  have h: "userIdOf ?w 1 = Some ''A''" "''A'' \<noteq> []" "p_callId ?p = Some ''c1''" "''c1'' \<noteq> []"
    "calls (store ?w) ''c1'' = Some ?c" "faultAt ?w = None"
    by (simp_all add: call_accepted_def run_def step_def eval_defs demo_defs)
  have k: "now (at_time 9500) = 9500" "calls (store demo_world) = Map.empty"
    "sorted (map (\<lambda>x. now (fst x)) (call_accepted @ [(at_time 9500, Message 1 (call_msg ''end-call''))]))"
    by (simp_all add: call_accepted_def demo_defs)
  have i: "int4 (call_duration ?c 9500)"
    by (simp add: int4_def call_duration_def)
  note t = end_call_duration [where ev = "at_time 9500", OF h]
  from t have a: "calls (store (snd (on_message 1 (at_time 9500) (call_msg ''end-call'') ?w))) ''c1''
      = Some (?c\<lparr>status := ended, endedAt := Some 9500, duration := Some (call_duration ?c 9500)\<rparr>)"
    "call_duration ?c 9500 = (9500 - 6000) div 1000"
    using k(1) i by (simp_all add: call_msg_def)
  from t k(2,3) have b: "0 \<le> call_duration ?c (now (at_time 9500))"
    by (auto simp: call_msg_def)
  show ?thesis using h(5) k a b by simp
qed

text \<open>
  The same call, but the clock reads 5500 ms when \<open>A\<close> ends it, half a second before
  the accept: the call is ended with the duration \<open>-1\<close>.
\<close>

theorem negative_duration_counterexample:
  "map_option startedAt (calls (store (run clock_back demo_world)) ''c1'') = Some (Some 6000)
   \<and> map_option endedAt (calls (store (run clock_back demo_world)) ''c1'') = Some (Some 5500)
   \<and> map_option status (calls (store (run clock_back demo_world)) ''c1'') = Some ended
   \<and> map_option duration (calls (store (run clock_back demo_world)) ''c1'') = Some (Some (- 1))
   \<and> \<not> 0 \<le> the (the (map_option duration (calls (store (run clock_back demo_world)) ''c1'')))"
proof -
  have 1: "calls (store (run clock_back demo_world)) ''c1''
      = Some \<lparr>conversationId = Some ''k'', initiatorId = ''A'', ctype = voice, status = ended,
             startedAt = Some 6000, endedAt = Some 5500, duration = Some (- 1), createdAt = Some 5000\<rparr>"
    by (simp add: clock_back_def call_accepted_def run_def step_def eval_defs demo_defs call_duration_def)
  show ?thesis by (simp add: 1)
qed

text \<open>
  Claim C5. When a connection \<open>c2\<close> registers with \<open>user-online\<close> for an identity that
  another connection \<open>c1\<close> is registered for, \<open>clients\<close> has \<open>c2\<close> for the identity
  afterwards, and a send to the identity changes no socket but \<open>c2\<close> (so nothing
  reaches \<open>c1\<close>) and, \<open>c2\<close> being open, puts the message on \<open>c2\<close>.
\<close>

theorem one_live_connection:
  assumes "clients w u = Some c1" "c1 \<noteq> c2" "p_userId p = Some u" "u \<noteq> []"
  shows "clients (snd (on_message c2 ev (Envelope (Some ''user-online'') (Some p)) w)) u = Some c2
    \<and> (\<forall>ty pl c. c \<noteq> c2 \<longrightarrow>
          sockets (broadcastToUsers [u] ty pl (snd (on_message c2 ev (Envelope (Some ''user-online'') (Some p)) w))) c
          = sockets (snd (on_message c2 ev (Envelope (Some ''user-online'') (Some p)) w)) c)
    \<and> (\<forall>ty pl. readyState (sockets (snd (on_message c2 ev (Envelope (Some ''user-online'') (Some p)) w)) c2) = OPEN \<longrightarrow>
          outbox (sockets (broadcastToUsers [u] ty pl
                     (snd (on_message c2 ev (Envelope (Some ''user-online'') (Some p)) w))) c2)
          = outbox (sockets (snd (on_message c2 ev (Envelope (Some ''user-online'') (Some p)) w)) c2) @ [(ty, pl)])"
proof -
  let ?w' = "snd (on_message c2 ev (Envelope (Some ''user-online'') (Some p)) w)"
  have c: "clients ?w' u = Some c2"
    using assms(3,4)
    by (auto simp: on_message_def message_body_def switch_def switch_clauses_def user_online_def
        monad_defs storage_def broadcast_def broadcastToUsers_frame
        split: option.splits nat.splits sum.splits prod.splits)
  show ?thesis using c by (simp add: send_one)
qed

text \<open>
  \<open>A\<close> is online on socket 1 and registers again on socket 3: the lookup gives socket
  3, and an offer sent to \<open>A\<close> leaves socket 1 as it was.
\<close>

theorem one_live_connection_witness:
  "clients demo_world ''A'' = Some 1
   \<and> clients (snd (on_message 3 (at_time 8000) (online_msg ''A'') demo_world)) ''A'' = Some 3
   \<and> sockets (broadcastToUsers [''A''] ''webrtc-offer'' (WebrtcOffer ''B'' JNull)
                (snd (on_message 3 (at_time 8000) (online_msg ''A'') demo_world))) 1
       = sockets (snd (on_message 3 (at_time 8000) (online_msg ''A'') demo_world)) 1"
proof -
  let ?p = "empty_payload\<lparr>p_userId := Some ''A''\<rparr>"
  have h: "clients demo_world ''A'' = Some 1" "(1::nat) \<noteq> 3" "p_userId ?p = Some ''A''" "''A'' \<noteq> []"
    by (simp_all add: demo_defs)
  from one_live_connection [where ev = "at_time 8000", OF h]
  show ?thesis using h(1) by (simp add: online_msg_def)
qed

text \<open>
  Claim C6, as the handler has it. A \<open>start-call\<close> event from a bound identity with a
  conversation id, no storage call rejected by the environment and the generated id
  new: when the identity is a user and the conversation exists, the call is created
  with status \<open>initiated\<close>, the initiator is added as a participant of the call, and
  one \<open>incoming-call\<close> event with the call and the initiator's user row is broadcast
  and sent on the open socket of each recipient; the recipients are the participants
  of the conversation, as \<open>getParticipants\<close> returns them, without the initiator.
  Where every participant row has its user, these are the users of all participant
  rows of the conversation but the initiator. When the identity is not a user or the
  conversation does not exist, the insert is rejected: the error is logged, and
  nothing is created, broadcast or sent.
\<close>

theorem start_call_postcondition:
  assumes "userIdOf w ws = Some u" "u \<noteq> []" "p_conversationId p = Some conv" "conv \<noteq> []"
    "faultAt w = None" "calls (store w) (uuid ev) = None"
  shows "(users (store w) u \<noteq> None \<and> getConversation conv (store w) \<noteq> None \<longrightarrow>
          calls (store (snd (on_message ws ev (Envelope (Some ''start-call'') (Some p)) w))) (uuid ev)
           = Some \<lparr>conversationId = Some conv, initiatorId = u,
                   ctype = (case p_type p of None \<Rightarrow> voice | Some ty \<Rightarrow> ty), status = initiated,
                   startedAt = None, endedAt = None, duration = None, createdAt = Some (now ev)\<rparr>
        \<and> callParticipants (store (snd (on_message ws ev (Envelope (Some ''start-call'') (Some p)) w)))
           = callParticipants (store w) @
             [\<lparr>cp_callId = uuid ev, cp_userId = u, joinedAt = Some (now ev), leftAt = None,
               isMuted = Some False, isVideoOff = Some False, isScreenSharing = Some False\<rparr>]
        \<and> trace (snd (on_message ws ev (Envelope (Some ''start-call'') (Some p)) w))
           = trace w @
             [(filter (\<lambda>i. i \<noteq> u) (participant_ids conv (store w)), ''incoming-call'',
               IncomingCall (uuid ev, \<lparr>conversationId = Some conv, initiatorId = u,
                   ctype = (case p_type p of None \<Rightarrow> voice | Some ty \<Rightarrow> ty), status = initiated,
                   startedAt = None, endedAt = None, duration = None, createdAt = Some (now ev)\<rparr>)
                 (users (store w) u))]
        \<and> (\<forall>k. outbox (sockets (snd (on_message ws ev (Envelope (Some ''start-call'') (Some p)) w)) k)
           = outbox (sockets w k)
             @ deliveries (filter (\<lambda>i. i \<noteq> u) (participant_ids conv (store w)))
                 (''incoming-call'',
                  IncomingCall (uuid ev, \<lparr>conversationId = Some conv, initiatorId = u,
                   ctype = (case p_type p of None \<Rightarrow> voice | Some ty \<Rightarrow> ty), status = initiated,
                   startedAt = None, endedAt = None, duration = None, createdAt = Some (now ev)\<rparr>)
                    (users (store w) u)) w k))
    \<and> set (filter (\<lambda>i. i \<noteq> u) (participant_ids conv (store w)))
           = set (participant_ids conv (store w)) - {u}
    \<and> ((\<forall>row \<in> set (conversationParticipants (store w)).
            part_conversationId row = conv \<longrightarrow> users (store w) (part_userId row) \<noteq> None) \<longrightarrow>
         set (filter (\<lambda>i. i \<noteq> u) (participant_ids conv (store w)))
           = {part_userId row | row. row \<in> set (conversationParticipants (store w))
                \<and> part_conversationId row = conv} - {u})
    \<and> (users (store w) u = None \<or> getConversation conv (store w) = None \<longrightarrow>
          snd (on_message ws ev (Envelope (Some ''start-call'') (Some p)) w)
            = w\<lparr>errlog := errlog w @ [StoreRejected]\<rparr>)"
proof -
  have 1: "users (store w) u \<noteq> None \<and> getConversation conv (store w) \<noteq> None \<longrightarrow>
          calls (store (snd (on_message ws ev (Envelope (Some ''start-call'') (Some p)) w))) (uuid ev)
           = Some \<lparr>conversationId = Some conv, initiatorId = u,
                   ctype = (case p_type p of None \<Rightarrow> voice | Some ty \<Rightarrow> ty), status = initiated,
                   startedAt = None, endedAt = None, duration = None, createdAt = Some (now ev)\<rparr>
        \<and> callParticipants (store (snd (on_message ws ev (Envelope (Some ''start-call'') (Some p)) w)))
           = callParticipants (store w) @
             [\<lparr>cp_callId = uuid ev, cp_userId = u, joinedAt = Some (now ev), leftAt = None,
               isMuted = Some False, isVideoOff = Some False, isScreenSharing = Some False\<rparr>]
        \<and> trace (snd (on_message ws ev (Envelope (Some ''start-call'') (Some p)) w))
           = trace w @
             [(filter (\<lambda>i. i \<noteq> u) (participant_ids conv (store w)), ''incoming-call'',
               IncomingCall (uuid ev, \<lparr>conversationId = Some conv, initiatorId = u,
                   ctype = (case p_type p of None \<Rightarrow> voice | Some ty \<Rightarrow> ty), status = initiated,
                   startedAt = None, endedAt = None, duration = None, createdAt = Some (now ev)\<rparr>)
                 (users (store w) u))]
        \<and> (\<forall>k. outbox (sockets (snd (on_message ws ev (Envelope (Some ''start-call'') (Some p)) w)) k)
           = outbox (sockets w k)
             @ deliveries (filter (\<lambda>i. i \<noteq> u) (participant_ids conv (store w)))
                 (''incoming-call'',
                  IncomingCall (uuid ev, \<lparr>conversationId = Some conv, initiatorId = u,
                   ctype = (case p_type p of None \<Rightarrow> voice | Some ty \<Rightarrow> ty), status = initiated,
                   startedAt = None, endedAt = None, duration = None, createdAt = Some (now ev)\<rparr>)
                    (users (store w) u)) w k)"
    using assms
    by (auto simp: on_message_def message_body_def switch_def switch_clauses_def start_call_def monad_defs
        storage_ok createCall_def new_call_def addCallParticipant_def new_call_participant_def getUser_def
        participants_of_def participant_ids_def query_def broadcastToConversation_def getParticipants_def
        broadcast_def broadcastToUsers_frame outbox_broadcastToUsers deliveries_store
        split: option.splits)
  have 2: "set (filter (\<lambda>i. i \<noteq> u) (participant_ids conv (store w)))
           = set (participant_ids conv (store w)) - {u}"
    by auto
  have 3: "(\<forall>row \<in> set (conversationParticipants (store w)).
            part_conversationId row = conv \<longrightarrow> users (store w) (part_userId row) \<noteq> None) \<longrightarrow>
         set (filter (\<lambda>i. i \<noteq> u) (participant_ids conv (store w)))
           = {part_userId row | row. row \<in> set (conversationParticipants (store w))
                \<and> part_conversationId row = conv} - {u}"
  proof
    assume "\<forall>row \<in> set (conversationParticipants (store w)).
            part_conversationId row = conv \<longrightarrow> users (store w) (part_userId row) \<noteq> None"
    from participant_ids_all [OF this] show "set (filter (\<lambda>i. i \<noteq> u) (participant_ids conv (store w)))
           = {part_userId row | row. row \<in> set (conversationParticipants (store w))
                \<and> part_conversationId row = conv} - {u}"
      by auto
  qed
  have 4: "users (store w) u = None \<or> getConversation conv (store w) = None \<longrightarrow>
          snd (on_message ws ev (Envelope (Some ''start-call'') (Some p)) w)
            = w\<lparr>errlog := errlog w @ [StoreRejected]\<rparr>"
    using assms
    by (auto simp: on_message_def message_body_def switch_def switch_clauses_def start_call_def monad_defs
        storage_ok createCall_def)
  show ?thesis using 1 2 3 4 by blast
qed

text \<open>
  \<open>A\<close> starts a call in the conversation with \<open>B\<close>: the event is sent on the socket of
  \<open>B\<close> alone.
\<close>

theorem start_call_postcondition_witness:
  "userIdOf demo_world 1 = Some ''A''
   \<and> calls (store demo_world) (uuid (at_time 5000)) = None
   \<and> map_option status
        (calls (store (snd (on_message 1 (at_time 5000) (conv_msg ''start-call'') demo_world))) ''c1'')
       = Some initiated
   \<and> map cp_userId (callParticipants (store (snd (on_message 1 (at_time 5000) (conv_msg ''start-call'') demo_world))))
       = [''A'']
   \<and> map fst (trace (snd (on_message 1 (at_time 5000) (conv_msg ''start-call'') demo_world))) = [[''B'']]
   \<and> map fst (outbox (sockets (snd (on_message 1 (at_time 5000) (conv_msg ''start-call'') demo_world)) 2))
       = [''incoming-call'']
   \<and> outbox (sockets (snd (on_message 1 (at_time 5000) (conv_msg ''start-call'') demo_world)) 1) = []
   \<and> getConversation ''nope'' (store demo_world) = None
   \<and> snd (on_message 1 (at_time 5000) nope_msg demo_world) = demo_world\<lparr>errlog := [StoreRejected]\<rparr>"
proof -
  let ?p = "empty_payload\<lparr>p_conversationId := Some ''k''\<rparr>"
  let ?q = "empty_payload\<lparr>p_conversationId := Some ''nope''\<rparr>"
  have h: "userIdOf demo_world 1 = Some ''A''" "''A'' \<noteq> []" "p_conversationId ?p = Some ''k''" "''k'' \<noteq> []"
    "faultAt demo_world = None" "calls (store demo_world) (uuid (at_time 5000)) = None"
    by (simp_all add: demo_defs)
  have k: "uuid (at_time 5000) = ''c1''" "trace demo_world = []" "callParticipants (store demo_world) = []"
    "participant_ids ''k'' (store demo_world) = [''A'', ''B'']"
    "users (store demo_world) ''A'' \<noteq> None" "getConversation ''k'' (store demo_world) \<noteq> None"
    "outbox (sockets demo_world 1) = []" "outbox (sockets demo_world 2) = []"
    by (simp_all add: demo_defs participant_ids_def participants_of_def getConversation_def
        List.map_filter_simps)
  have d: "\<And>m. deliveries [''B''] m demo_world 1 = []" "\<And>m. deliveries [''B''] m demo_world 2 = [m]"
    by (simp_all add: demo_defs deliveries_def)
  have g: "p_conversationId ?q = Some ''nope''" "''nope'' \<noteq> []"
    "getConversation ''nope'' (store demo_world) = None" "errlog demo_world = []"
    by (simp_all add: demo_defs getConversation_def)
  have e: "map (\<lambda>k. map fst (outbox (sockets (snd (on_message 1 (at_time 5000) (conv_msg ''start-call'') demo_world)) k))) [1, 2]
      = [[], [''incoming-call'']]"
    by (simp add: eval_defs demo_defs)
  from start_call_postcondition [OF h(1,2) g(1,2) h(5,6)] g(3,4)
  have r: "snd (on_message 1 (at_time 5000) nope_msg demo_world) = demo_world\<lparr>errlog := [StoreRejected]\<rparr>"
    by (simp add: nope_msg_def)
  from start_call_postcondition [OF h]
  show ?thesis using h(1,6) k d g(3) r e by (simp add: conv_msg_def)
qed

text \<open>
  \<open>A\<close> starts a call in a conversation that does not exist: the insert is rejected,
  and there is no call, no participant of a call and no broadcast.
\<close>

theorem start_call_unknown_conversation_counterexample:
  "userIdOf demo_world 1 = Some ''A''
   \<and> nope_msg = Envelope (Some ''start-call'') (Some (empty_payload\<lparr>p_conversationId := Some ''nope''\<rparr>))
   \<and> calls (store demo_world) (uuid (at_time 5000)) = None
   \<and> calls (store (step (at_time 5000, Message 1 nope_msg) demo_world)) (uuid (at_time 5000)) = None
   \<and> callParticipants (store (step (at_time 5000, Message 1 nope_msg) demo_world)) = []
   \<and> store (step (at_time 5000, Message 1 nope_msg) demo_world) = store demo_world
   \<and> trace (step (at_time 5000, Message 1 nope_msg) demo_world) = []
   \<and> outbox (sockets (step (at_time 5000, Message 1 nope_msg) demo_world) 2) = []
   \<and> errlog (step (at_time 5000, Message 1 nope_msg) demo_world) = [StoreRejected]"
  by (simp add: nope_msg_def step_def eval_defs demo_defs)

text \<open>
  Claim C7. A send to an identity that has no entry in \<open>clients\<close>, or whose socket is
  not open, returns the world it was given: nothing is sent, no state changes, and
  the function has no way to fail.
\<close>

theorem silent_send:
  assumes "clients w uid = None \<or> (\<exists>c. clients w uid = Some c \<and> readyState (sockets w c) \<noteq> OPEN)"
  shows "broadcastToUsers [uid] ty pl w = w"
  using assms by (auto simp: broadcastToUsers_def send_to_def)

text \<open>
  Nobody is registered as \<open>Z\<close>, and the socket of \<open>B\<close> has closed without its entry
  being removed: an offer sent to \<open>Z\<close> or to \<open>B\<close> changes nothing.
\<close>

theorem silent_send_witness:
  "clients demo_world ''Z'' = None
   \<and> broadcastToUsers [''Z''] ''webrtc-offer'' (WebrtcOffer ''A'' JNull) demo_world = demo_world
   \<and> clients (closed 2 demo_world) ''B'' = Some 2
   \<and> readyState (sockets (closed 2 demo_world) 2) = CLOSED
   \<and> broadcastToUsers [''B''] ''webrtc-offer'' (WebrtcOffer ''A'' JNull) (closed 2 demo_world)
       = closed 2 demo_world"
proof -
  have h: "clients demo_world ''Z'' = None" by (simp add: demo_defs)
  then have 1: "clients demo_world ''Z'' = None
      \<or> (\<exists>c. clients demo_world ''Z'' = Some c \<and> readyState (sockets demo_world c) \<noteq> OPEN)"
    by simp
  have k: "clients (closed 2 demo_world) ''B'' = Some 2"
    "readyState (sockets (closed 2 demo_world) 2) = CLOSED"
    by (simp_all add: closed_def demo_defs)
  then have 2: "clients (closed 2 demo_world) ''B'' = None
      \<or> (\<exists>c. clients (closed 2 demo_world) ''B'' = Some c
              \<and> readyState (sockets (closed 2 demo_world) c) \<noteq> OPEN)"
    by simp
  from silent_send [OF 1] silent_send [OF 2] h k show ?thesis by simp
qed

text \<open>
  Claim C8. The \<open>message\<close> handler never ends in an exception. It closes no socket.
  What its body throws is logged, once. Data that does not parse is logged as a
  syntax error and changes nothing else. A message whose type is none of the handled
  names changes nothing at all.
\<close>

theorem robust_dispatch:
  "fst (on_message ws ev fr w) = Inr ()
   \<and> (\<forall>c. readyState (sockets (snd (on_message ws ev fr w)) c) = readyState (sockets w c))
   \<and> errlog (snd (on_message ws ev fr w))
       = errlog w @ (case fst (message_body ws ev fr w) of Inl e \<Rightarrow> [e] | Inr _ \<Rightarrow> [])
   \<and> (fr = Malformed \<longrightarrow> snd (on_message ws ev fr w) = w\<lparr>errlog := errlog w @ [SyntaxError]\<rparr>)
   \<and> (\<forall>ty pl. fr = Envelope ty pl \<and> (\<forall>t. ty = Some t \<longrightarrow> t \<notin> set handled_types)
         \<longrightarrow> snd (on_message ws ev fr w) = w)"
proof -
  obtain r w1 where b: "message_body ws ev fr w = (r, w1)" by (cases "message_body ws ev fr w")
  have "keeps (\<lambda>x. True) (message_body ws ev fr)" by (rule keeps_message_body) simp
  then have e: "extends (\<lambda>x. True) w w1" using b by (metis keeps_def snd_conv)
  have 1: "fst (on_message ws ev fr w) = Inr ()"
    using b by (cases r) (simp_all add: on_message_def try_catch_def console_error_def modifyM_def)
  have 2: "\<forall>c. readyState (sockets (snd (on_message ws ev fr w)) c) = readyState (sockets w c)"
    using b e by (cases r) (simp_all add: on_message_def try_catch_def console_error_def modifyM_def extends_def)
  have 3: "errlog (snd (on_message ws ev fr w))
       = errlog w @ (case fst (message_body ws ev fr w) of Inl e \<Rightarrow> [e] | Inr _ \<Rightarrow> [])"
    using b e by (cases r) (simp_all add: on_message_def try_catch_def console_error_def modifyM_def extends_def)
  have 4: "fr = Malformed \<longrightarrow> snd (on_message ws ev fr w) = w\<lparr>errlog := errlog w @ [SyntaxError]\<rparr>"
    by (simp add: on_message_def message_body_def try_catch_def console_error_def modifyM_def throwM_def)
  have 5: "\<forall>ty pl. fr = Envelope ty pl \<and> (\<forall>t. ty = Some t \<longrightarrow> t \<notin> set handled_types)
         \<longrightarrow> snd (on_message ws ev fr w) = w"
  proof (intro allI impI)
    fix ty pl assume a: "fr = Envelope ty pl \<and> (\<forall>t. ty = Some t \<longrightarrow> t \<notin> set handled_types)"
    show "snd (on_message ws ev fr w) = w"
    proof (cases ty)
      case None
      with a show ?thesis by (simp add: on_message_def message_body_def try_catch_def switch_def returnM_def)
    next
      case (Some t)
      with a have "switch (Some t) ws ev pl w = (Inr (), w)" by (simp add: unhandled_ignored)
      with a Some show ?thesis by (simp add: on_message_def message_body_def try_catch_def)
    qed
  qed
  show ?thesis using 1 2 3 4 5 by blast
qed

text \<open>
  Data that does not parse, a \<open>ping\<close>, and a \<open>user-online\<close> without payload, on the
  socket of \<open>A\<close>: the first and the last are logged, the second is ignored, and none
  ends in an exception.
\<close>

theorem robust_dispatch_witness:
  "snd (on_message 1 (at_time 8000) Malformed demo_world) = demo_world\<lparr>errlog := [SyntaxError]\<rparr>
   \<and> ''ping'' \<notin> set handled_types
   \<and> snd (on_message 1 (at_time 8000) (Envelope (Some ''ping'') None) demo_world) = demo_world
   \<and> fst (on_message 1 (at_time 8000) (Envelope (Some ''user-online'') None) demo_world) = Inr ()
   \<and> errlog (snd (on_message 1 (at_time 8000) (Envelope (Some ''user-online'') None) demo_world)) = [TypeError]"
proof -
  have p: "''ping'' \<notin> set handled_types" by (simp add: handled_types_def)
  have l: "errlog demo_world = []" by (simp add: demo_defs)
  have b: "fst (message_body 1 (at_time 8000) (Envelope (Some ''user-online'') None) demo_world) = Inl TypeError"
    by (simp add: message_body_def switch_def switch_clauses_def user_online_def monad_defs)
  from robust_dispatch [of 1 "at_time 8000" Malformed demo_world]
  have 1: "snd (on_message 1 (at_time 8000) Malformed demo_world) = demo_world\<lparr>errlog := [SyntaxError]\<rparr>"
    using l by simp
  from robust_dispatch [of 1 "at_time 8000" "Envelope (Some ''ping'') None" demo_world] p
  have 2: "snd (on_message 1 (at_time 8000) (Envelope (Some ''ping'') None) demo_world) = demo_world"
    by simp
  from robust_dispatch [of 1 "at_time 8000" "Envelope (Some ''user-online'') None" demo_world]
  have 3: "fst (on_message 1 (at_time 8000) (Envelope (Some ''user-online'') None) demo_world) = Inr ()
     \<and> errlog (snd (on_message 1 (at_time 8000) (Envelope (Some ''user-online'') None) demo_world)) = [TypeError]"
    using l b by simp
  show ?thesis using p 1 2 3 by simp
qed



text \<open>
  Claim C10, as the switch has it. A \<open>typing\<close> event from a bound identity with a
  conversation id, the storage calls succeeding, is answered by exactly one
  broadcast, of type \<open>typing-status\<close>, to the other participants. Any \<open>typing\<close> event is
  answered by at most one broadcast, and only of that type; by none when the
  connection has no identity or the message no conversation id. No message whatever
  makes the hub broadcast \<open>user-typing\<close>: the second \<open>typing\<close> clause never runs.
\<close>

theorem typing_broadcasts:
  "(userIdOf w ws = Some u \<and> u \<noteq> [] \<and> p_conversationId p = Some cid \<and> cid \<noteq> [] \<and> faultAt w = None \<longrightarrow>
      trace (snd (on_message ws ev (Envelope (Some ''typing'') (Some p)) w))
        = trace w @ [(filter (\<lambda>i. i \<noteq> u) (participant_ids cid (store w)), ''typing-status'',
                      TypingStatus cid u (p_isTyping p))])
   \<and> (\<exists>new. trace (snd (on_message ws ev (Envelope (Some ''typing'') pl) w)) = trace w @ new
          \<and> length new \<le> 1 \<and> (\<forall>x \<in> set new. fst (snd x) = ''typing-status''))
   \<and> (userIdOf w ws = None \<or> userIdOf w ws = Some [] \<or> pl = None
        \<or> (\<exists>q. pl = Some q \<and> (p_conversationId q = None \<or> p_conversationId q = Some [])) \<longrightarrow>
      trace (snd (on_message ws ev (Envelope (Some ''typing'') pl) w)) = trace w)
   \<and> (\<forall>x \<in> set (drop (length (trace w)) (trace (snd (on_message ws ev fr w)))). fst (snd x) \<noteq> ''user-typing'')"
proof -
  have a: "userIdOf w ws = Some u \<and> u \<noteq> [] \<and> p_conversationId p = Some cid \<and> cid \<noteq> [] \<and> faultAt w = None \<longrightarrow>
      trace (snd (on_message ws ev (Envelope (Some ''typing'') (Some p)) w))
        = trace w @ [(filter (\<lambda>i. i \<noteq> u) (participant_ids cid (store w)), ''typing-status'',
                      TypingStatus cid u (p_isTyping p))]"
    by (simp add: on_message_trace message_body_def switch_typing typing_exactly_one)
  have "keeps (\<lambda>x. fst (snd x) = ''typing-status'') (typing_status ws ev pl)"
    by (rule keeps_typing_status) simp
  then obtain new where new: "trace (snd (typing_status ws ev pl w)) = trace w @ new"
    "\<forall>x \<in> set new. fst (snd x) = ''typing-status''"
    unfolding keeps_def extends_def by blast
  from new(1) typing_at_most_one [of ws ev pl w] have "length new \<le> 1" by simp
  with new have b: "\<exists>new. trace (snd (on_message ws ev (Envelope (Some ''typing'') pl) w)) = trace w @ new
          \<and> length new \<le> 1 \<and> (\<forall>x \<in> set new. fst (snd x) = ''typing-status'')"
    by (auto simp: on_message_trace message_body_def switch_typing)
  have d: "userIdOf w ws = None \<or> userIdOf w ws = Some [] \<or> pl = None
        \<or> (\<exists>q. pl = Some q \<and> (p_conversationId q = None \<or> p_conversationId q = Some [])) \<longrightarrow>
      trace (snd (on_message ws ev (Envelope (Some ''typing'') pl) w)) = trace w"
    by (simp add: on_message_trace message_body_def switch_typing typing_none)
  have "keeps (\<lambda>x. fst (snd x) \<noteq> ''user-typing'') (message_body ws ev fr)"
    by (rule keeps_message_body) (auto simp: emitted_types_def)
  then have "extends (\<lambda>x. fst (snd x) \<noteq> ''user-typing'') w (snd (message_body ws ev fr w))"
    by (simp add: keeps_def)
  then have c: "\<forall>x \<in> set (drop (length (trace w)) (trace (snd (on_message ws ev fr w)))).
      fst (snd x) \<noteq> ''user-typing''"
    unfolding on_message_trace by (rule extends_new)
  show ?thesis using a b c d by blast
qed

text \<open>\<open>B\<close> types in the conversation with \<open>A\<close>: one \<open>typing-status\<close> event, to \<open>A\<close>.\<close>

theorem typing_broadcasts_witness:
  "userIdOf demo_world 2 = Some ''B''
   \<and> trace (snd (on_message 2 (at_time 8000) (conv_msg ''typing'') demo_world))
       = [([''A''], ''typing-status'', TypingStatus ''k'' ''B'' None)]
   \<and> list_all (\<lambda>x. fst (snd x) \<noteq> ''user-typing'')
        (drop (length (trace demo_world))
           (trace (snd (on_message 2 (at_time 8000) (conv_msg ''typing'') demo_world))))"
proof -
  let ?p = "empty_payload\<lparr>p_conversationId := Some ''k''\<rparr>"
  note t = typing_broadcasts [where w = demo_world and ws = 2 and u = "''B''" and p = ?p and cid = "''k''"
      and ev = "at_time 8000" and fr = "conv_msg ''typing''"]
  have h: "userIdOf demo_world 2 = Some ''B'' \<and> ''B'' \<noteq> [] \<and> p_conversationId ?p = Some ''k'' \<and> ''k'' \<noteq> []
      \<and> faultAt demo_world = None"
    by (simp add: demo_defs)
  have k: "trace demo_world = []" "p_isTyping ?p = None"
    "filter (\<lambda>i. i \<noteq> ''B'') (participant_ids ''k'' (store demo_world)) = [''A'']"
    by (simp_all add: demo_defs participant_ids_def participants_of_def List.map_filter_simps)
  from t h have 1: "trace (snd (on_message 2 (at_time 8000) (conv_msg ''typing'') demo_world))
       = [([''A''], ''typing-status'', TypingStatus ''k'' ''B'' None)]"
    using k by (simp add: conv_msg_def)
  from t have 2: "list_all (\<lambda>x. fst (snd x) \<noteq> ''user-typing'')
        (drop (length (trace demo_world))
           (trace (snd (on_message 2 (at_time 8000) (conv_msg ''typing'') demo_world))))"
    by (simp add: list_all_iff)
  show ?thesis using h 1 2 by simp
qed

text \<open>
  A client connects on socket 3 and sends \<open>typing\<close> before any \<open>user-online\<close>: the
  connection has no identity, and nothing is broadcast.
\<close>

theorem typing_unbound_counterexample:
  "userIdOf (step (at_time 7000, Connection 3) demo_world) 3 = None
   \<and> trace (run [(at_time 7000, Connection 3), (at_time 8000, Message 3 (conv_msg ''typing''))] demo_world)
       = trace demo_world"
  by (simp add: run_def step_def on_connection_def eval_defs demo_defs)

end
